theory Spec2Isabelle
  imports Complex_Main
begin

section \<open>Data model\<close>

text \<open>
  Time is the number of milliseconds since the epoch, as \<^verbatim>\<open>Date.now()\<close> returns it.
  The source stores instants as ISO strings (\<^verbatim>\<open>toISOString\<close>) and reads them back with
  \<^verbatim>\<open>new Date(s)\<close>; both directions are exact on millisecond instants, so a stored
  instant is modelled by the integer it denotes.  A function that reads the clock or the
  random source takes the value read as an argument; the clock reads of one call are
  taken to return the same instant.
\<close>

type_synonym timestamp = int

text \<open>\<^verbatim>\<open>interface Session\<close> of session.service.ts; \<^verbatim>\<open>isDemoMode?: boolean\<close> is optional.\<close>

record Session =
  s_id :: string
  s_userId :: string
  s_expiresAt :: timestamp
  s_createdAt :: timestamp
  s_isDemoMode :: "bool option"

text \<open>A row of the table \<^verbatim>\<open>sessions (id, user_id, expires_at, created_at)\<close>.\<close>

record SessionRow =
  r_id :: string
  r_user_id :: string
  r_expires_at :: timestamp
  r_created_at :: timestamp

datatype Role = RoleAdmin | RoleUser

text \<open>\<^verbatim>\<open>interface User\<close> of user.service.ts, without the two timestamps.\<close>

record User =
  u_id :: string
  u_username :: string
  u_role :: Role
  u_firstLogin :: bool

datatype ResourceType = Device | Room

text \<open>\<^verbatim>\<open>interface AccessControl\<close> of acl.service.ts, a row of \<^verbatim>\<open>access_control\<close>.\<close>

record AccessControl =
  ac_id :: string
  ac_userId :: string
  ac_resourceType :: ResourceType
  ac_resourceId :: string
  ac_createdAt :: timestamp

text \<open>
  The state the services share: the configuration value
  \<^verbatim>\<open>config.session.timeoutMinutes\<close>, the module-level map \<^verbatim>\<open>demoSessions\<close>, and the
  tables of the SQLite database.  \<^verbatim>\<open>users\<close> and \<^verbatim>\<open>sessions\<close> are keyed by their
  primary key; \<^verbatim>\<open>access_control\<close> keeps its rows in insertion order.
  \<^verbatim>\<open>db_foreign_keys\<close> says whether the database enforces the
  \<^verbatim>\<open>FOREIGN KEY (user_id) REFERENCES users(id)\<close> clauses: db.ts sets no such pragma, so
  the setting is the one the SQLite build defaults to, and it is a parameter here.

  The timeout is \<^verbatim>\<open>Number(SESSION_TIMEOUT_MINUTES)\<close>, which env.ts does not validate:
  \<^verbatim>\<open>Some m\<close> is a whole number of minutes, \<^verbatim>\<open>None\<close> a Number that is not finite (NaN for
  text that is no number, or an infinity).  A timeout with a fractional part is outside
  this model.
\<close>

record server =
  timeoutMinutes :: "int option"
  demoSessions :: "string \<rightharpoonup> Session"
  db_users :: "string \<rightharpoonup> User"
  db_sessions :: "string \<rightharpoonup> SessionRow"
  db_access_control :: "AccessControl list"
  db_foreign_keys :: bool

text \<open>
  What the services throw: a constraint violation from a statement of the database
  driver, or the RangeError of \<^verbatim>\<open>toISOString\<close> on an invalid Date.
\<close>

datatype error = SqliteConstraintPrimaryKey | SqliteConstraintForeignKey | RangeError

section \<open>SessionService\<close>

text \<open>
  A Date holds a time value of at most 8.64e15 milliseconds either side of the epoch;
  \<^verbatim>\<open>new Date(v)\<close> of any other number, or of NaN, is an invalid Date, and
  \<^verbatim>\<open>toISOString\<close> throws on it.
\<close>

definition valid_time :: "int \<Rightarrow> bool" where
  "valid_time t = (- 8640000000000000 \<le> t \<and> t \<le> 8640000000000000)"

text \<open>
  \<^verbatim>\<open>new Date(Date.now() + config.session.timeoutMinutes * 60 * 1000).toISOString()\<close>, the
  first statement of \<^verbatim>\<open>createSession\<close> and of \<^verbatim>\<open>refreshSession\<close>.
\<close>

definition expiry :: "timestamp \<Rightarrow> server \<Rightarrow> error + timestamp" where
  "expiry now st =
     (case timeoutMinutes st of
        None \<Rightarrow> Inl RangeError
      | Some m \<Rightarrow>
          if valid_time (now + m * 60 * 1000) then Inr (now + m * 60 * 1000)
          else Inl RangeError)"

text \<open>
  \<^verbatim>\<open>INSERT INTO sessions (id, user_id, expires_at, created_at) VALUES (?, ?, ?, datetime('now'))\<close>:
  a plain insert, which throws when the primary key is taken, or (with foreign keys
  enforced) when the user does not exist.  \<^verbatim>\<open>datetime('now')\<close> has a resolution of one second.
\<close>

definition insert_session :: "string \<Rightarrow> string \<Rightarrow> timestamp \<Rightarrow> timestamp \<Rightarrow> server \<Rightarrow> error + server" where
  "insert_session sessionId userId expiresAt now st =
     (if db_sessions st sessionId \<noteq> None then Inl SqliteConstraintPrimaryKey
      else if db_foreign_keys st \<and> db_users st userId = None then Inl SqliteConstraintForeignKey
      else Inr (st\<lparr>db_sessions := (db_sessions st)(sessionId \<mapsto>
             \<lparr>r_id = sessionId, r_user_id = userId, r_expires_at = expiresAt,
              r_created_at = (now div 1000) * 1000\<rparr>)\<rparr>))"

text \<open>
  \<^verbatim>\<open>createSession(userId, isDemoMode = false)\<close>.  \<^verbatim>\<open>sessionId\<close> is the value of
  \<^verbatim>\<open>randomBytes(32).toString('hex')\<close> and \<^verbatim>\<open>now\<close> the clock.  The expiration is computed
  before anything is stored, so a throw there leaves both tiers as they were.
\<close>

definition createSession :: "string \<Rightarrow> timestamp \<Rightarrow> string \<Rightarrow> bool \<Rightarrow> server \<Rightarrow> error + (Session \<times> server)" where
  "createSession sessionId now userId isDemoMode st =
     (case expiry now st of
        Inl e \<Rightarrow> Inl e
      | Inr expiresAt \<Rightarrow>
          let session = \<lparr>s_id = sessionId, s_userId = userId, s_expiresAt = expiresAt,
                         s_createdAt = now, s_isDemoMode = Some isDemoMode\<rparr>
          in if isDemoMode
             then Inr (session, st\<lparr>demoSessions := (demoSessions st)(sessionId \<mapsto> session)\<rparr>)
             else (case insert_session sessionId userId expiresAt now st of
                     Inl e \<Rightarrow> Inl e
                   | Inr st' \<Rightarrow> Inr (session, st')))"

text \<open>\<^verbatim>\<open>deleteSession(sessionId)\<close>.\<close>

definition deleteSession :: "string \<Rightarrow> server \<Rightarrow> server" where
  "deleteSession sessionId st =
     (if demoSessions st sessionId \<noteq> None
      then st\<lparr>demoSessions := (demoSessions st)(sessionId := None)\<rparr>
      else st\<lparr>db_sessions := (db_sessions st)(sessionId := None)\<rparr>)"

text \<open>
  The object the durable read returns:
  \<^verbatim>\<open>SELECT id, user_id as userId, expires_at as expiresAt, created_at as createdAt\<close>.
  No column feeds \<^verbatim>\<open>isDemoMode\<close>, which stays undefined.
\<close>

definition session_of_row :: "SessionRow \<Rightarrow> Session" where
  "session_of_row row =
     \<lparr>s_id = r_id row, s_userId = r_user_id row, s_expiresAt = r_expires_at row,
      s_createdAt = r_created_at row, s_isDemoMode = None\<rparr>"

text \<open>\<^verbatim>\<open>getSession(sessionId)\<close>: the session or null, and the state the read leaves.\<close>

definition getSession :: "string \<Rightarrow> timestamp \<Rightarrow> server \<Rightarrow> Session option \<times> server" where
  "getSession sessionId now st =
     (case demoSessions st sessionId of
        Some demoSession \<Rightarrow>
          if s_expiresAt demoSession < now
          then (None, st\<lparr>demoSessions := (demoSessions st)(sessionId := None)\<rparr>)
          else (Some demoSession, st)
      | None \<Rightarrow>
          (case db_sessions st sessionId of
             None \<Rightarrow> (None, st)
           | Some row \<Rightarrow>
               if r_expires_at row < now
               then (None, deleteSession sessionId st)
               else (Some (session_of_row row), st)))"

text \<open>
  \<^verbatim>\<open>refreshSession(sessionId)\<close>: the new expiration is computed first, so a throw leaves
  both tiers as they were; the UPDATE changes the row with that id, if any.
\<close>

definition refreshSession :: "string \<Rightarrow> timestamp \<Rightarrow> server \<Rightarrow> error + server" where
  "refreshSession sessionId now st =
     (case expiry now st of
        Inl e \<Rightarrow> Inl e
      | Inr expiresAt \<Rightarrow>
          (case demoSessions st sessionId of
             Some demoSession \<Rightarrow>
               Inr (st\<lparr>demoSessions :=
                         (demoSessions st)(sessionId \<mapsto> demoSession\<lparr>s_expiresAt := expiresAt\<rparr>)\<rparr>)
           | None \<Rightarrow>
               (case db_sessions st sessionId of
                  None \<Rightarrow> Inr st
                | Some row \<Rightarrow>
                    Inr (st\<lparr>db_sessions :=
                              (db_sessions st)(sessionId \<mapsto> row\<lparr>r_expires_at := expiresAt\<rparr>)\<rparr>))))"

text \<open>
  Logging in \<^verbatim>\<open>n\<close> times in demo mode: one \<^verbatim>\<open>createSession(userId, true)\<close> for each
  (session id, clock, user id) of the list, in order.  A call that throws fails that
  login and stores nothing; the next login runs on the state as it was.
\<close>

fun createDemoSessions :: "(string \<times> timestamp \<times> string) list \<Rightarrow> server \<Rightarrow> server" where
  "createDemoSessions [] st = st"
| "createDemoSessions ((sessionId, now, userId) # rest) st =
     (case createSession sessionId now userId True st of
        Inl e \<Rightarrow> createDemoSessions rest st
      | Inr (session, st') \<Rightarrow> createDemoSessions rest st')"

definition stored_expiration :: "string \<Rightarrow> server \<Rightarrow> timestamp option" where
  \<comment> \<open>The expiration of the record that \<^verbatim>\<open>getSession\<close> reads for an id: the demo tier first.\<close>
  "stored_expiration sessionId st =
     (case demoSessions st sessionId of
        Some demoSession \<Rightarrow> Some (s_expiresAt demoSession)
      | None \<Rightarrow> map_option r_expires_at (db_sessions st sessionId))"

definition tiers_disjoint :: "server \<Rightarrow> bool" where
  \<comment> \<open>No session id is held in both tiers.\<close>
  "tiers_disjoint st = (dom (demoSessions st) \<inter> dom (db_sessions st) = {})"

section \<open>ACLService\<close>

definition same_resource :: "string \<Rightarrow> ResourceType \<Rightarrow> string \<Rightarrow> AccessControl \<Rightarrow> bool" where
  \<comment> \<open>\<^verbatim>\<open>WHERE user_id = ? AND resource_type = ? AND resource_id = ?\<close>\<close>
  "same_resource userId resourceType resourceId row =
     (ac_userId row = userId \<and> ac_resourceType row = resourceType \<and> ac_resourceId row = resourceId)"

text \<open>
  \<^verbatim>\<open>grantAccess\<close>: \<^verbatim>\<open>INSERT OR IGNORE INTO access_control ...\<close>.  The table has
  \<^verbatim>\<open>id TEXT PRIMARY KEY\<close> and \<^verbatim>\<open>UNIQUE(user_id, resource_type, resource_id)\<close>; a row
  that would break either is skipped silently.  OR IGNORE does not cover foreign keys.
  The object returned carries the fresh id whether or not a row was written.
  \<^verbatim>\<open>aclId\<close> is the value of \<^verbatim>\<open>randomBytes(16).toString('hex')\<close>.
\<close>

definition grantAccess ::
    "string \<Rightarrow> timestamp \<Rightarrow> string \<Rightarrow> ResourceType \<Rightarrow> string \<Rightarrow> server \<Rightarrow> error + (AccessControl \<times> server)" where
  "grantAccess aclId now userId resourceType resourceId st =
     (let returned = \<lparr>ac_id = aclId, ac_userId = userId, ac_resourceType = resourceType,
                      ac_resourceId = resourceId, ac_createdAt = now\<rparr>
      in if list_ex (\<lambda>row. ac_id row = aclId \<or> same_resource userId resourceType resourceId row)
              (db_access_control st)
         then Inr (returned, st)
         else if db_foreign_keys st \<and> db_users st userId = None
         then Inl SqliteConstraintForeignKey
         else Inr (returned,
                   st\<lparr>db_access_control := db_access_control st @
                        [returned\<lparr>ac_createdAt := (now div 1000) * 1000\<rparr>]\<rparr>))"

definition revokeAccess :: "string \<Rightarrow> ResourceType \<Rightarrow> string \<Rightarrow> server \<Rightarrow> server" where
  "revokeAccess userId resourceType resourceId st =
     st\<lparr>db_access_control :=
          filter (\<lambda>row. \<not> same_resource userId resourceType resourceId row) (db_access_control st)\<rparr>"

definition hasAccess :: "string \<Rightarrow> ResourceType \<Rightarrow> string \<Rightarrow> server \<Rightarrow> bool" where
  "hasAccess userId resourceType resourceId st =
     list_ex (same_resource userId resourceType resourceId) (db_access_control st)"

text \<open>
  \<^verbatim>\<open>getAccessibleDeviceIds\<close> and \<^verbatim>\<open>getAccessibleRoomIds\<close>.  The SELECT has no ORDER BY, so
  the order of the ids is the database's choice (it may follow the UNIQUE index rather
  than insertion); the lists here are in insertion order, and their callers only test
  membership.
\<close>

definition getAccessibleDeviceIds :: "string \<Rightarrow> server \<Rightarrow> string list" where
  "getAccessibleDeviceIds userId st =
     map ac_resourceId
       (filter (\<lambda>row. ac_userId row = userId \<and> ac_resourceType row = Device) (db_access_control st))"

definition getAccessibleRoomIds :: "string \<Rightarrow> server \<Rightarrow> string list" where
  "getAccessibleRoomIds userId st =
     map ac_resourceId
       (filter (\<lambda>row. ac_userId row = userId \<and> ac_resourceType row = Room) (db_access_control st))"

definition grant_rows :: "string \<Rightarrow> ResourceType \<Rightarrow> string \<Rightarrow> server \<Rightarrow> AccessControl list" where
  \<comment> \<open>The entries of the table for one (user, kind, resource).\<close>
  "grant_rows userId resourceType resourceId st =
     filter (same_resource userId resourceType resourceId) (db_access_control st)"

definition acl_schema :: "server \<Rightarrow> bool" where
  \<comment> \<open>What the schema keeps true of every table: distinct ids, distinct triples.\<close>
  "acl_schema st =
     (distinct (map ac_id (db_access_control st)) \<and>
      distinct (map (\<lambda>row. (ac_userId row, ac_resourceType row, ac_resourceId row))
                 (db_access_control st)))"

section \<open>Request pipeline (auth.middleware.ts, acl.middleware.ts)\<close>

text \<open>The fields of a Fastify request that the hooks read or decorate.\<close>

record request =
  rq_url :: string
  rq_cookies_sessionId :: "string option"
  rq_params_deviceId :: string
  rq_user :: "User option"
  rq_sessionId :: "string option"
  rq_isDemoMode :: "bool option"

text \<open>\<^verbatim>\<open>reply.code(c).send({error, message?, requiresPasswordChange?})\<close>.\<close>

record reply =
  rp_code :: nat
  rp_error :: string
  rp_message :: "string option"
  rp_requiresPasswordChange :: "bool option"

text \<open>
  What a preHandler hook does: return (the lifecycle goes on with the request as
  decorated), send a reply (the lifecycle ends there), or throw.
\<close>

datatype hook_result = Continue request | Sent reply | Thrown

definition demo_user :: User where
  "demo_user = \<lparr>u_id = ''demo-user-id'', u_username = ''demo'', u_role = RoleUser, u_firstLogin = False\<rparr>"

definition getUserById :: "string \<Rightarrow> server \<Rightarrow> User option" where
  "getUserById userId st = db_users st userId"

definition authMiddleware :: "request \<Rightarrow> timestamp \<Rightarrow> server \<Rightarrow> hook_result \<times> server" where
  "authMiddleware req now st =
     (case rq_cookies_sessionId req of
        None \<Rightarrow>
          (Sent \<lparr>rp_code = 401, rp_error = ''Not authenticated'', rp_message = None,
                 rp_requiresPasswordChange = None\<rparr>, st)
      | Some sessionId \<Rightarrow>
          if sessionId = []
          then (Sent \<lparr>rp_code = 401, rp_error = ''Not authenticated'', rp_message = None,
                      rp_requiresPasswordChange = None\<rparr>, st)
          else (case getSession sessionId now st of
                  (None, st1) \<Rightarrow>
                    (Sent \<lparr>rp_code = 401, rp_error = ''Invalid or expired session'',
                           rp_message = None, rp_requiresPasswordChange = None\<rparr>, st1)
                | (Some session, st1) \<Rightarrow>
                    (case (if s_isDemoMode session = Some True \<and> s_userId session = ''demo-user-id''
                           then Some demo_user
                           else getUserById (s_userId session) st1) of
                       None \<Rightarrow>
                         (Sent \<lparr>rp_code = 401, rp_error = ''User not found'', rp_message = None,
                                rp_requiresPasswordChange = None\<rparr>, st1)
                     | Some resolved \<Rightarrow>
                         (case refreshSession sessionId now st1 of
                            Inl e \<Rightarrow> (Thrown, st1)
                          | Inr st2 \<Rightarrow>
                              (Continue (req\<lparr>rq_user := Some resolved,
                                             rq_sessionId := Some sessionId,
                                             rq_isDemoMode := Some (s_isDemoMode session = Some True)\<rparr>),
                               st2)))))"

definition firstLoginMiddleware :: "request \<Rightarrow> hook_result" where
  "firstLoginMiddleware req =
     (if (case rq_user req of None \<Rightarrow> False | Some resolved \<Rightarrow> u_firstLogin resolved)
         \<and> rq_url req \<noteq> ''/api/auth/change-password''
      then Sent \<lparr>rp_code = 403, rp_error = ''Password change required'', rp_message = None,
                 rp_requiresPasswordChange = Some True\<rparr>
      else Continue req)"

text \<open>
  \<^verbatim>\<open>deviceACLMiddleware\<close>.  \<^verbatim>\<open>request.user!\<close> is not checked at run time: reading
  \<^verbatim>\<open>user.role\<close> of an undefined user throws.
\<close>

definition deviceACLMiddleware :: "request \<Rightarrow> server \<Rightarrow> hook_result" where
  "deviceACLMiddleware req st =
     (if rq_isDemoMode req = Some True then Continue req
      else (case rq_user req of
              None \<Rightarrow> Thrown
            | Some resolved \<Rightarrow>
                if u_role resolved = RoleAdmin then Continue req
                else if hasAccess (u_id resolved) Device (rq_params_deviceId req) st then Continue req
                else Sent \<lparr>rp_code = 403, rp_error = ''Access denied'',
                           rp_message = Some ''You do not have permission to access this device'',
                           rp_requiresPasswordChange = None\<rparr>))"

text \<open>A device as the cloud API returns it, as far as \<^verbatim>\<open>filterDevicesByACL\<close> reads it.\<close>

record SmartDevice =
  dev_deviceId :: string
  dev_roomId :: "string option"

definition filterDevicesByACL :: "SmartDevice list \<Rightarrow> string \<Rightarrow> Role \<Rightarrow> server \<Rightarrow> SmartDevice list" where
  "filterDevicesByACL devices userId userRole st =
     (if userRole = RoleAdmin \<or> userId = ''demo-user-id'' then devices
      else let accessibleDeviceIds = getAccessibleDeviceIds userId st;
               accessibleRoomIds = getAccessibleRoomIds userId st
           in filter (\<lambda>d. dev_deviceId d \<in> set accessibleDeviceIds \<or>
                           (case dev_roomId d of
                              None \<Rightarrow> False
                            | Some roomId \<Rightarrow> roomId \<noteq> [] \<and> roomId \<in> set accessibleRoomIds))
                devices)"

text \<open>
  Fastify runs the preHandler hooks of a route in the order they were added, the plugin's
  before the route's own; a hook that sends a reply ends the request, and neither the
  later hooks nor the handler run.
\<close>

type_synonym hook = "request \<Rightarrow> timestamp \<Rightarrow> server \<Rightarrow> hook_result \<times> server"

fun run_preHandlers :: "hook list \<Rightarrow> request \<Rightarrow> timestamp \<Rightarrow> server \<Rightarrow> hook_result \<times> server" where
  "run_preHandlers [] req now st = (Continue req, st)"
| "run_preHandlers (h # hs) req now st =
     (case h req now st of
        (Continue req', st') \<Rightarrow> run_preHandlers hs req' now st'
      | (Sent r, st') \<Rightarrow> (Sent r, st')
      | (Thrown, st') \<Rightarrow> (Thrown, st'))"

datatype 'a response = Replied reply | Handled 'a | InternalError

definition route :: "hook list \<Rightarrow> (request \<Rightarrow> server \<Rightarrow> 'a) \<Rightarrow> request \<Rightarrow> timestamp \<Rightarrow> server \<Rightarrow> 'a response \<times> server" where
  "route hooks handler req now st =
     (case run_preHandlers hooks req now st of
        (Continue req', st') \<Rightarrow> (Handled (handler req' st'), st')
      | (Sent r, st') \<Rightarrow> (Replied r, st')
      | (Thrown, st') \<Rightarrow> (InternalError, st'))"

definition firstLoginHook :: hook where
  "firstLoginHook req now st = (firstLoginMiddleware req, st)"

definition deviceACLHook :: hook where
  "deviceACLHook req now st = (deviceACLMiddleware req st, st)"

definition plugin_hooks :: "hook list" where
  \<comment> \<open>\<^verbatim>\<open>fastify.addHook('preHandler', authMiddleware); fastify.addHook('preHandler', firstLoginMiddleware)\<close>\<close>
  "plugin_hooks = [authMiddleware, firstLoginHook]"

definition auth_hooks :: "hook list" where
  \<comment> \<open>\<^verbatim>\<open>fastify.get('/me', { preHandler: authMiddleware }, ...)\<close> in authRoutes, and the same
     for \<^verbatim>\<open>/logout\<close> and \<^verbatim>\<open>/change-password\<close>; the plugin adds no hook of its own\<close>
  "auth_hooks = [authMiddleware]"

text \<open>
  The handler of \<^verbatim>\<open>GET /me\<close> in authRoutes: the profile of \<^verbatim>\<open>request.user\<close>, with fixed
  fields for the demo user (\<^verbatim>\<open>None\<close> where \<^verbatim>\<open>request.user!\<close> would throw).
\<close>

definition me_handler :: "request \<Rightarrow> server \<Rightarrow> User option" where
  "me_handler req st =
     (case rq_user req of
        None \<Rightarrow> None
      | Some resolved \<Rightarrow>
          if u_id resolved = ''demo-user-id'' then Some demo_user else Some resolved)"

definition device_hooks :: "hook list" where
  \<comment> \<open>\<^verbatim>\<open>fastify.get('/:deviceId', { preHandler: deviceACLMiddleware }, ...)\<close> in deviceRoutes\<close>
  "device_hooks = plugin_hooks @ [deviceACLHook]"

section \<open>WebSocketService (websocket.service.ts)\<close>

datatype readyState = CONNECTING | OPEN | CLOSING | CLOSED

text \<open>
  \<^verbatim>\<open>interface AuthenticatedWebSocket\<close>: the transport's \<^verbatim>\<open>readyState\<close> and the four optional
  fields the service attaches.  \<^verbatim>\<open>ws_listening\<close> records that the connection handler has
  registered its \<^verbatim>\<open>'pong'\<close>, \<^verbatim>\<open>'message'\<close>, \<^verbatim>\<open>'close'\<close> and \<^verbatim>\<open>'error'\<close> listeners on the socket.
\<close>

record AuthenticatedWebSocket =
  ws_readyState :: readyState
  ws_userId :: "string option"
  ws_username :: "string option"
  ws_isAlive :: "bool option"
  ws_isDemoMode :: "bool option"
  ws_listening :: bool

text \<open>
  The service and the sockets it refers to.  Socket objects are shared between
  \<^verbatim>\<open>wss.clients\<close> and the sets of \<^verbatim>\<open>this.clients\<close>, so they live in a store addressed by
  a number, and both collections hold addresses, in insertion order (the order in which
  a JavaScript Set iterates).  \<^verbatim>\<open>wss_clients\<close> is \<^verbatim>\<open>None\<close> while \<^verbatim>\<open>this.wss\<close> is null.
\<close>

record WebSocketService =
  sockets :: "nat \<rightharpoonup> AuthenticatedWebSocket"
  wss_clients :: "nat list option"
  clients :: "string \<rightharpoonup> nat list"

datatype message =
    Connected timestamp
  | DeviceUpdate string string timestamp
  | Data string

text \<open>The \<^verbatim>\<open>'close'\<close> listener of the connection handler.\<close>

definition close_listener :: "nat \<Rightarrow> WebSocketService \<Rightarrow> WebSocketService" where
  "close_listener cid h =
     (case sockets h cid of
        None \<Rightarrow> h
      | Some ws \<Rightarrow>
          (case ws_userId ws of
             None \<Rightarrow> h
           | Some userId \<Rightarrow>
               (case clients h userId of
                  None \<Rightarrow> h
                | Some userClients \<Rightarrow>
                    if removeAll cid userClients = []
                    then h\<lparr>clients := (clients h)(userId := None)\<rparr>
                    else h\<lparr>clients := (clients h)(userId \<mapsto> removeAll cid userClients)\<rparr>)))"

text \<open>
  The transport of a socket has closed: the library sets the state to CLOSED, takes the
  socket out of \<^verbatim>\<open>wss.clients\<close> and emits \<^verbatim>\<open>'close'\<close>.
\<close>

definition transport_closed :: "nat \<Rightarrow> WebSocketService \<Rightarrow> WebSocketService" where
  "transport_closed cid h =
     (case sockets h cid of
        None \<Rightarrow> h
      | Some ws \<Rightarrow>
          let h1 = h\<lparr>sockets := (sockets h)(cid \<mapsto> ws\<lparr>ws_readyState := CLOSED\<rparr>),
                     wss_clients := map_option (removeAll cid) (wss_clients h)\<rparr>
          in if ws_listening ws then close_listener cid h1 else h1)"

text \<open>
  \<^verbatim>\<open>client.terminate()\<close> destroys the transport; the close that follows is taken to be
  handled before the service does anything else.
\<close>

definition terminate :: "nat \<Rightarrow> WebSocketService \<Rightarrow> WebSocketService" where
  "terminate cid h = transport_closed cid h"

text \<open>The \<^verbatim>\<open>'pong'\<close> listener: \<^verbatim>\<open>ws.isAlive = true\<close>.\<close>

definition on_pong :: "nat \<Rightarrow> WebSocketService \<Rightarrow> WebSocketService" where
  "on_pong cid h =
     (case sockets h cid of
        None \<Rightarrow> h
      | Some ws \<Rightarrow>
          if ws_listening ws
          then h\<lparr>sockets := (sockets h)(cid \<mapsto> ws\<lparr>ws_isAlive := Some True\<rparr>)\<rparr>
          else h)"

text \<open>One round of the callback of \<^verbatim>\<open>startHeartbeat\<close>, for one socket and for all.\<close>

definition heartbeat_client :: "nat \<Rightarrow> WebSocketService \<Rightarrow> WebSocketService" where
  "heartbeat_client cid h =
     (case sockets h cid of
        None \<Rightarrow> h
      | Some client \<Rightarrow>
          if ws_isAlive client = Some False then terminate cid h
          else h\<lparr>sockets := (sockets h)(cid \<mapsto> client\<lparr>ws_isAlive := Some False\<rparr>)\<rparr>)"

definition heartbeat :: "WebSocketService \<Rightarrow> WebSocketService" where
  "heartbeat h =
     (case wss_clients h of
        None \<Rightarrow> h
      | Some cs \<Rightarrow> fold heartbeat_client cs h)"

text \<open>
  The handler of \<^verbatim>\<open>'connection'\<close> for a new transport connection whose URL carries
  \<^verbatim>\<open>sessionId\<close> (or none).  The library has made the socket, OPEN, and put it into
  \<^verbatim>\<open>wss.clients\<close> when the handler starts; \<^verbatim>\<open>cid\<close> is its address, a fresh one.
  \<^verbatim>\<open>ws.close(1008, ...)\<close> starts the closing handshake.  The handler is taken to run to
  its end without interruption.  The result lists what was sent.
\<close>

definition on_connection ::
    "nat \<Rightarrow> string option \<Rightarrow> timestamp \<Rightarrow> WebSocketService \<times> server
       \<Rightarrow> (nat \<times> message) list \<times> WebSocketService \<times> server" where
  "on_connection cid sessionIdParam now hs =
     (let h = fst hs; st = snd hs;
          ws = \<lparr>ws_readyState = OPEN, ws_userId = None, ws_username = None, ws_isAlive = None,
                ws_isDemoMode = None, ws_listening = False\<rparr>;
          h0 = h\<lparr>sockets := (sockets h)(cid \<mapsto> ws),
                  wss_clients := map_option (\<lambda>cs. cs @ [cid]) (wss_clients h)\<rparr>;
          rejected = h0\<lparr>sockets := (sockets h0)(cid \<mapsto> ws\<lparr>ws_readyState := CLOSING\<rparr>)\<rparr>
      in case sessionIdParam of
           None \<Rightarrow> ([], rejected, st)
         | Some sessionId \<Rightarrow>
             if sessionId = [] then ([], rejected, st)
             else (case getSession sessionId now st of
                     (None, st1) \<Rightarrow> ([], rejected, st1)
                   | (Some session, st1) \<Rightarrow>
                       let isDemo = (s_isDemoMode session = Some True);
                           username =
                             (if isDemo \<and> s_userId session = ''demo-user-id'' then ''demo''
                              else (case getUserById (s_userId session) st1 of
                                      None \<Rightarrow> ''unknown''
                                    | Some resolved \<Rightarrow>
                                        if u_username resolved = [] then ''unknown''
                                        else u_username resolved));
                           ws1 = ws\<lparr>ws_userId := Some (s_userId session),
                                    ws_username := Some username,
                                    ws_isAlive := Some True,
                                    ws_isDemoMode := Some isDemo,
                                    ws_listening := True\<rparr>;
                           userClients = (case clients h0 (s_userId session) of
                                            None \<Rightarrow> []
                                          | Some cs \<Rightarrow> cs)
                       in ([(cid, Connected now)],
                           h0\<lparr>sockets := (sockets h0)(cid \<mapsto> ws1),
                              clients := (clients h0)(s_userId session \<mapsto>
                                 (if cid \<in> set userClients then userClients
                                  else userClients @ [cid]))\<rparr>,
                           st1)))"

text \<open>
  \<^verbatim>\<open>broadcastDeviceUpdate(deviceId, status, isDemoMode = false)\<close> and
  \<^verbatim>\<open>broadcastToUser(userId, data)\<close>: the list of (socket, message) sent.
\<close>

definition broadcastDeviceUpdate ::
    "string \<Rightarrow> string \<Rightarrow> timestamp \<Rightarrow> bool \<Rightarrow> WebSocketService \<Rightarrow> (nat \<times> message) list" where
  "broadcastDeviceUpdate deviceId status now isDemoMode h =
     (case wss_clients h of
        None \<Rightarrow> []
      | Some cs \<Rightarrow>
          map (\<lambda>cid. (cid, DeviceUpdate deviceId status now))
            (filter (\<lambda>cid. case sockets h cid of
                              None \<Rightarrow> False
                            | Some client \<Rightarrow>
                                ws_isDemoMode client = Some isDemoMode \<and> ws_readyState client = OPEN)
               cs))"

definition broadcastToUser :: "string \<Rightarrow> string \<Rightarrow> WebSocketService \<Rightarrow> (nat \<times> message) list" where
  "broadcastToUser userId data h =
     (case clients h userId of
        None \<Rightarrow> []
      | Some userClients \<Rightarrow>
          map (\<lambda>cid. (cid, Data data))
            (filter (\<lambda>cid. case sockets h cid of
                              None \<Rightarrow> False
                            | Some ws \<Rightarrow> ws_readyState ws = OPEN)
               userClients))"

text \<open>
  What can happen to the service, one event at a time: a pong arrives on a socket, the
  transport of a socket closes, the heartbeat timer fires, a new connection arrives.
\<close>

datatype event =
    PongFrom nat
  | TransportClosed nat
  | HeartbeatTick
  | NewConnection nat "string option" timestamp

fun handle_event :: "event \<Rightarrow> WebSocketService \<times> server \<Rightarrow> WebSocketService \<times> server" where
  "handle_event (PongFrom cid) (h, st) = (on_pong cid h, st)"
| "handle_event (TransportClosed cid) (h, st) = (transport_closed cid h, st)"
| "handle_event HeartbeatTick (h, st) = (heartbeat h, st)"
| "handle_event (NewConnection cid sessionIdParam now) (h, st) =
     snd (on_connection cid sessionIdParam now (h, st))"

definition run :: "event list \<Rightarrow> WebSocketService \<times> server \<Rightarrow> WebSocketService \<times> server" where
  "run es hs = fold handle_event es hs"

fun touches :: "nat \<Rightarrow> event \<Rightarrow> bool" where
  \<comment> \<open>The event is a pong from the socket, or the arrival of the socket itself.\<close>
  "touches cid (PongFrom c) = (c = cid)"
| "touches cid (NewConnection c sessionIdParam now) = (c = cid)"
| "touches cid e = False"

fun arrival :: "event \<Rightarrow> bool" where
  "arrival (NewConnection c sessionIdParam now) = True"
| "arrival e = False"

text \<open>
  A socket the connection handler has accepted for a user and that is still in
  \<^verbatim>\<open>wss.clients\<close>; one that is also in the user's set of the registry; and one that has
  been closed and taken out of both.
\<close>

definition attached :: "nat \<Rightarrow> string \<Rightarrow> WebSocketService \<Rightarrow> bool" where
  "attached cid userId h =
     (case sockets h cid of
        None \<Rightarrow> False
      | Some ws \<Rightarrow>
          ws_userId ws = Some userId \<and> ws_listening ws \<and>
          (case wss_clients h of None \<Rightarrow> False | Some cs \<Rightarrow> cid \<in> set cs))"

definition registered :: "nat \<Rightarrow> string \<Rightarrow> WebSocketService \<Rightarrow> bool" where
  "registered cid userId h =
     (attached cid userId h \<and>
      (case clients h userId of None \<Rightarrow> False | Some userClients \<Rightarrow> cid \<in> set userClients))"

definition stale :: "nat \<Rightarrow> string \<Rightarrow> WebSocketService \<Rightarrow> bool" where
  "stale cid userId h =
     (attached cid userId h \<and> map_option ws_isAlive (sockets h cid) = Some (Some False))"

definition removed :: "nat \<Rightarrow> string \<Rightarrow> WebSocketService \<Rightarrow> bool" where
  "removed cid userId h =
     (map_option ws_readyState (sockets h cid) = Some CLOSED \<and>
      (case wss_clients h of None \<Rightarrow> True | Some cs \<Rightarrow> cid \<notin> set cs) \<and>
      (case clients h userId of None \<Rightarrow> True | Some userClients \<Rightarrow> cid \<notin> set userClients))"

text \<open>The registry holds no connection for a user but, at most, the given one.\<close>

definition sole :: "nat \<Rightarrow> string \<Rightarrow> WebSocketService \<Rightarrow> bool" where
  "sole cid userId h = (case clients h userId of None \<Rightarrow> True | Some userClients \<Rightarrow> userClients = [cid])"

text \<open>
  A registered socket whose transport is OPEN; \<^verbatim>\<open>wss.clients\<close> as the Set it is; and two
  kinds of event: a round of the heartbeat, and the close of a given socket.
\<close>

definition open_registered :: "nat \<Rightarrow> string \<Rightarrow> WebSocketService \<Rightarrow> bool" where
  "open_registered cid userId h =
     (registered cid userId h \<and> map_option ws_readyState (sockets h cid) = Some OPEN)"

definition clients_distinct :: "WebSocketService \<Rightarrow> bool" where
  \<comment> \<open>\<^verbatim>\<open>wss.clients\<close> is a Set: no socket is in it twice.\<close>
  "clients_distinct h = (case wss_clients h of None \<Rightarrow> True | Some cs \<Rightarrow> distinct cs)"

fun tick :: "event \<Rightarrow> bool" where
  "tick HeartbeatTick = True"
| "tick e = False"

fun closes :: "nat \<Rightarrow> event \<Rightarrow> bool" where
  "closes cid (TransportClosed c) = (c = cid)"
| "closes cid e = False"

section \<open>WebSocketClient (frontend/src/lib/websocket.ts)\<close>

text \<open>
  The fields of the client that reconnection reads and writes.  Delays are JavaScript
  numbers; every value that arises here is \<open>1000 * (3/2) ^ k\<close> with \<open>k \<le> 10\<close>, or 30000,
  which doubles represent exactly, so they are modelled as rationals.
\<close>

record WebSocketClient =
  reconnectAttempts :: nat
  maxReconnectAttempts :: nat
  reconnectDelay :: rat
  maxReconnectDelay :: rat
  isConnected :: bool
  shouldReconnect :: bool

definition new_WebSocketClient :: WebSocketClient where
  "new_WebSocketClient =
     \<lparr>reconnectAttempts = 0, maxReconnectAttempts = 10, reconnectDelay = 1000,
      maxReconnectDelay = 30000, isConnected = False, shouldReconnect = True\<rparr>"

text \<open>\<^verbatim>\<open>scheduleReconnect()\<close>: the delay passed to \<^verbatim>\<open>setTimeout\<close>, if a reconnect is scheduled.\<close>

definition scheduleReconnect :: "WebSocketClient \<Rightarrow> rat option \<times> WebSocketClient" where
  "scheduleReconnect c =
     (if \<not> shouldReconnect c then (None, c)
      else if maxReconnectAttempts c \<le> reconnectAttempts c then (None, c)
      else let c1 = c\<lparr>reconnectAttempts := reconnectAttempts c + 1\<rparr>
           in (Some (min (reconnectDelay c1 * (3 / 2) ^ reconnectAttempts c1) (maxReconnectDelay c1)),
               c1))"

text \<open>The \<^verbatim>\<open>onopen\<close> and \<^verbatim>\<open>onclose\<close> callbacks set in \<^verbatim>\<open>connect()\<close>.\<close>

definition onopen :: "WebSocketClient \<Rightarrow> WebSocketClient" where
  "onopen c = c\<lparr>isConnected := True, reconnectAttempts := 0, reconnectDelay := 1000\<rparr>"

definition onclose :: "WebSocketClient \<Rightarrow> rat option \<times> WebSocketClient" where
  "onclose c =
     (let c1 = c\<lparr>isConnected := False\<rparr>
      in if shouldReconnect c1 then scheduleReconnect c1 else (None, c1))"

text \<open>The delays of the first \<open>n\<close> reconnects in a row, none of which succeeds.\<close>

fun reconnect_delays :: "nat \<Rightarrow> WebSocketClient \<Rightarrow> rat option list" where
  "reconnect_delays 0 c = []"
| "reconnect_delays (Suc n) c =
     (case onclose c of (d, c1) \<Rightarrow> d # reconnect_delays n c1)"

section \<open>Example states\<close>

definition example_server :: server where
  "example_server =
     \<lparr>timeoutMinutes = Some 30, demoSessions = Map.empty,
      db_users = [''u1'' \<mapsto> \<lparr>u_id = ''u1'', u_username = ''alice'', u_role = RoleUser,
                                u_firstLogin = False\<rparr>],
      db_sessions = Map.empty, db_access_control = [], db_foreign_keys = True\<rparr>"

definition example_request :: request where
  "example_request =
     \<lparr>rq_url = ''/api/devices/d1'', rq_cookies_sessionId = Some ''s1'', rq_params_deviceId = ''d1'',
      rq_user = Some \<lparr>u_id = ''u1'', u_username = ''alice'', u_role = RoleUser, u_firstLogin = False\<rparr>,
      rq_sessionId = Some ''s1'', rq_isDemoMode = Some False\<rparr>"

definition example_first_login_server :: server where
  "example_first_login_server =
     example_server
       \<lparr>db_users := [''u2'' \<mapsto> \<lparr>u_id = ''u2'', u_username = ''bob'', u_role = RoleUser,
                                  u_firstLogin = True\<rparr>],
        db_sessions := [''s2'' \<mapsto> \<lparr>r_id = ''s2'', r_user_id = ''u2'', r_expires_at = 1800000,
                                     r_created_at = 0\<rparr>]\<rparr>"

definition example_first_login_request :: request where
  "example_first_login_request =
     \<lparr>rq_url = ''/api/devices/d1'', rq_cookies_sessionId = Some ''s2'', rq_params_deviceId = ''d1'',
      rq_user = None, rq_sessionId = None, rq_isDemoMode = None\<rparr>"

definition example_hub :: WebSocketService where
  "example_hub = \<lparr>sockets = Map.empty, wss_clients = Some [], clients = Map.empty\<rparr>"

definition example_mixed_hub :: WebSocketService where
  "example_mixed_hub =
     \<lparr>sockets =
        [3 \<mapsto> \<lparr>ws_readyState = OPEN, ws_userId = Some ''demo-user-id'', ws_username = Some ''demo'',
                 ws_isAlive = Some True, ws_isDemoMode = Some False, ws_listening = True\<rparr>,
         4 \<mapsto> \<lparr>ws_readyState = OPEN, ws_userId = Some ''demo-user-id'', ws_username = Some ''demo'',
                 ws_isAlive = Some True, ws_isDemoMode = Some True, ws_listening = True\<rparr>],
      wss_clients = Some [3, 4],
      clients = [''demo-user-id'' \<mapsto> [3, 4]]\<rparr>"

section \<open>Session store: properties\<close>

lemma expiry_Inr:
  "expiry now st = Inr e \<longleftrightarrow>
     (\<exists>m. timeoutMinutes st = Some m \<and> valid_time (now + m * 60 * 1000) \<and> e = now + m * 60 * 1000)"
  by (auto simp: expiry_def split: option.splits)

lemma expiry_Inl: "expiry now st = Inl e \<Longrightarrow> e = RangeError"
  by (auto simp: expiry_def split: option.splits if_splits)

lemma createSession_demo:
  "createSession sessionId now userId True st =
     (case expiry now st of
        Inl e \<Rightarrow> Inl e
      | Inr expiresAt \<Rightarrow>
          Inr (\<lparr>s_id = sessionId, s_userId = userId, s_expiresAt = expiresAt,
                s_createdAt = now, s_isDemoMode = Some True\<rparr>,
               st\<lparr>demoSessions := (demoSessions st)(sessionId \<mapsto>
                 \<lparr>s_id = sessionId, s_userId = userId, s_expiresAt = expiresAt,
                  s_createdAt = now, s_isDemoMode = Some True\<rparr>)\<rparr>))"
  by (simp add: createSession_def Let_def split: sum.splits)

lemma createSession_invalid:
  "expiry now st = Inl e \<Longrightarrow> createSession sessionId now userId isDemoMode st = Inl RangeError"
  by (auto simp: createSession_def dest: expiry_Inl)

lemma refreshSession_invalid:
  "expiry now st = Inl e \<Longrightarrow> refreshSession sessionId now st = Inl RangeError"
  by (auto simp: refreshSession_def dest: expiry_Inl)

lemma createSession_demo_tables:
  assumes "createSession sessionId now userId True st = Inr (session, st1)"
  shows "db_sessions st1 = db_sessions st \<and> db_users st1 = db_users st
       \<and> db_access_control st1 = db_access_control st"
  using assms by (auto simp: createSession_demo split: sum.splits)

lemma createDemoSessions_tables:
  "db_sessions (createDemoSessions reqs st) = db_sessions st
   \<and> db_users (createDemoSessions reqs st) = db_users st
   \<and> db_access_control (createDemoSessions reqs st) = db_access_control st"
proof (induction reqs arbitrary: st)
  case Nil
  then show ?case by simp
next
  case (Cons r rest)
  obtain sessionId now userId where r: "r = (sessionId, now, userId)"
    by (cases r) auto
  show ?case
  proof (cases "createSession sessionId now userId True st")
    case (Inl e)
    with Cons.IH [of st] show ?thesis
      by (simp add: r)
  next
    case (Inr created)
    obtain session st1 where created: "created = (session, st1)"
      by (cases created) auto
    from Inr created have "db_sessions st1 = db_sessions st \<and> db_users st1 = db_users st
       \<and> db_access_control st1 = db_access_control st"
      using createSession_demo_tables by blast
    with Cons.IH [of st1] Inr created show ?thesis
      by (simp add: r)
  qed
qed

text \<open>
  Claim C2.  \<^verbatim>\<open>createSession\<close> with the demo flag set does one of two things: it throws
  the RangeError of an invalid expiration and stores nothing, or it writes the session
  to \<^verbatim>\<open>demoSessions\<close> and changes nothing else.  Any number of demo logins, from any state
  and whether or not some of them throw, leaves the durable \<^verbatim>\<open>sessions\<close> table as it was,
  so it holds no row for any of them that it did not hold before.
\<close>

theorem C2_ephemeral_never_durable:
  "createSession sessionId now userId True st =
     (case expiry now st of
        Inl e \<Rightarrow> Inl e
      | Inr expiresAt \<Rightarrow>
          Inr (\<lparr>s_id = sessionId, s_userId = userId, s_expiresAt = expiresAt,
                s_createdAt = now, s_isDemoMode = Some True\<rparr>,
               st\<lparr>demoSessions := (demoSessions st)(sessionId \<mapsto>
                 \<lparr>s_id = sessionId, s_userId = userId, s_expiresAt = expiresAt,
                  s_createdAt = now, s_isDemoMode = Some True\<rparr>)\<rparr>))
   \<and> db_sessions (createDemoSessions reqs st) = db_sessions st"
  using createSession_demo [of sessionId now userId st] createDemoSessions_tables [of reqs st]
  by simp

theorem C2_ephemeral_never_durable_witness:
  "db_sessions (createDemoSessions [(''d1'', 0, ''demo-user-id''), (''d2'', 5000, ''demo-user-id'')]
      example_server) ''d1'' = None
   \<and> db_sessions (createDemoSessions [(''d1'', 0, ''demo-user-id''), (''d2'', 5000, ''demo-user-id'')]
      example_server) ''d2'' = None
   \<and> map_option s_isDemoMode
        (demoSessions (createDemoSessions [(''d1'', 0, ''demo-user-id''), (''d2'', 5000, ''demo-user-id'')]
           example_server) ''d1'') = Some (Some True)
   \<and> map_option s_isDemoMode
        (demoSessions (createDemoSessions [(''d1'', 0, ''demo-user-id''), (''d2'', 5000, ''demo-user-id'')]
           example_server) ''d2'') = Some (Some True)
   \<and> db_sessions (createDemoSessions [(''d3'', 0, ''demo-user-id'')]
        (example_server\<lparr>timeoutMinutes := None\<rparr>)) ''d3'' = None
   \<and> createSession ''d3'' 0 ''demo-user-id'' True (example_server\<lparr>timeoutMinutes := None\<rparr>)
        = Inl RangeError"
proof -
  let ?reqs = "[(''d1'', 0, ''demo-user-id''), (''d2'', 5000, ''demo-user-id'')]"
  let ?bad = "example_server\<lparr>timeoutMinutes := None\<rparr>"
  have d0: "db_sessions (createDemoSessions ?reqs example_server) = db_sessions example_server"
    by (rule C2_ephemeral_never_durable [THEN conjunct2])
  have d1: "db_sessions (createDemoSessions ?reqs example_server) ''d1'' = None"
    unfolding d0 by (simp add: example_server_def)
  have d2: "db_sessions (createDemoSessions ?reqs example_server) ''d2'' = None"
    unfolding d0 by (simp add: example_server_def)
  have b0: "db_sessions (createDemoSessions [(''d3'', 0, ''demo-user-id'')] ?bad) = db_sessions ?bad"
    by (rule C2_ephemeral_never_durable [THEN conjunct2])
  have d3: "db_sessions (createDemoSessions [(''d3'', 0, ''demo-user-id'')] ?bad) ''d3'' = None"
    unfolding b0 by (simp add: example_server_def)
  have c3: "createSession ''d3'' 0 ''demo-user-id'' True ?bad = Inl RangeError"
    by (simp add: C2_ephemeral_never_durable [THEN conjunct1] expiry_def)
  have x: "expiry 0 example_server = Inr 1800000"
    by (simp add: expiry_def valid_time_def example_server_def)
  have x': "\<And>f. expiry 5000 (example_server\<lparr>demoSessions := f\<rparr>) = Inr 1805000"
    by (simp add: expiry_def valid_time_def example_server_def)
  have f: "demoSessions (createDemoSessions ?reqs example_server) =
      (demoSessions example_server)
           (''d1'' \<mapsto> \<lparr>s_id = ''d1'', s_userId = ''demo-user-id'', s_expiresAt = 1800000, s_createdAt = 0,
                       s_isDemoMode = Some True\<rparr>,
            ''d2'' \<mapsto> \<lparr>s_id = ''d2'', s_userId = ''demo-user-id'', s_expiresAt = 1805000, s_createdAt = 5000,
                       s_isDemoMode = Some True\<rparr>)"
    by (simp add: createSession_demo x x')
  have f1: "map_option s_isDemoMode (demoSessions (createDemoSessions ?reqs example_server) ''d1'')
      = Some (Some True)"
    unfolding f by simp
  have f2: "map_option s_isDemoMode (demoSessions (createDemoSessions ?reqs example_server) ''d2'')
      = Some (Some True)"
    unfolding f by simp
  from d1 d2 f1 f2 d3 c3 show ?thesis
    by blast
qed

lemma refreshSession_stored:
  assumes "sessionId \<in> dom (demoSessions st) \<union> dom (db_sessions st)"
    and "timeoutMinutes st = Some m" and "valid_time (now + m * 60 * 1000)"
  shows "\<exists>st1. refreshSession sessionId now st = Inr st1
           \<and> stored_expiration sessionId st1 = Some (now + m * 60 * 1000)"
  using assms
  by (auto simp: stored_expiration_def refreshSession_def expiry_def split: option.splits)

lemma getSession_by_stored:
  "stored_expiration sessionId st = Some e \<Longrightarrow> \<not> e < t \<Longrightarrow>
     \<exists>session. getSession sessionId t st = (Some session, st) \<and> s_expiresAt session = e"
  by (auto simp: stored_expiration_def getSession_def session_of_row_def split: option.splits)

lemma getSession_by_stored_expired:
  "stored_expiration sessionId st = Some e \<Longrightarrow> e < t \<Longrightarrow>
     fst (getSession sessionId t st) = None"
  by (auto simp: stored_expiration_def getSession_def session_of_row_def split: option.splits)

text \<open>
  Claim C4.  For a session id held in either tier, and a timeout for which \<open>now\<close> plus
  the timeout is a valid Date, \<^verbatim>\<open>refreshSession\<close> at time \<open>now\<close> returns and sets the stored
  expiration to exactly \<open>now\<close> plus the timeout: a read at any time up to that instant
  returns the session, with that expiration and without changing the state, and a read
  after it returns nothing.  (For any other timeout the call throws before it writes,
  \<open>refreshSession_invalid\<close>.)  The witness is the scenario of the claim: created at 0 with
  a timeout of 30 minutes, refreshed at 20 minutes, read at 45 and at 51 minutes.
\<close>

theorem C4_refresh_sliding_expiration:
  assumes held: "sessionId \<in> dom (demoSessions st) \<union> dom (db_sessions st)"
    and timeout: "timeoutMinutes st = Some m"
    and valid: "valid_time (now + m * 60 * 1000)"
  shows "\<exists>st1. refreshSession sessionId now st = Inr st1
       \<and> stored_expiration sessionId st1 = Some (now + m * 60 * 1000)
       \<and> (t \<le> now + m * 60 * 1000 \<longrightarrow>
            (\<exists>session. getSession sessionId t st1 = (Some session, st1)
                      \<and> s_expiresAt session = now + m * 60 * 1000))
       \<and> (now + m * 60 * 1000 < t \<longrightarrow> fst (getSession sessionId t st1) = None)"
proof -
  let ?e = "now + m * 60 * 1000"
  from refreshSession_stored [OF held timeout valid] obtain st1 where
    r: "refreshSession sessionId now st = Inr st1" and e: "stored_expiration sessionId st1 = Some ?e"
    by blast
  show ?thesis
    using r e getSession_by_stored [OF e, of t] getSession_by_stored_expired [OF e, of t]
    by auto
qed

theorem C4_refresh_sliding_expiration_witness:
  "case createSession ''s1'' 0 ''u1'' False example_server of
     Inl e \<Rightarrow> False
   | Inr (session, st1) \<Rightarrow>
       ''s1'' \<in> dom (demoSessions st1) \<union> dom (db_sessions st1)
       \<and> timeoutMinutes st1 = Some 30
       \<and> valid_time (1200000 + 30 * 60 * 1000)
       \<and> (case refreshSession ''s1'' 1200000 st1 of
             Inl e \<Rightarrow> False
           | Inr st2 \<Rightarrow>
               stored_expiration ''s1'' st2 = Some 3000000
               \<and> map_option s_expiresAt (fst (getSession ''s1'' 2700000 st2)) = Some 3000000
               \<and> fst (getSession ''s1'' 3060000 st2) = None)"
proof -
  let ?row = "\<lparr>r_id = ''s1'', r_user_id = ''u1'', r_expires_at = 1800000, r_created_at = 0\<rparr>"
  let ?st1 = "example_server\<lparr>db_sessions := (db_sessions example_server)(''s1'' \<mapsto> ?row)\<rparr>"
  have c: "createSession ''s1'' 0 ''u1'' False example_server =
             Inr (\<lparr>s_id = ''s1'', s_userId = ''u1'', s_expiresAt = 1800000, s_createdAt = 0,
                   s_isDemoMode = Some False\<rparr>, ?st1)"
    by (simp add: createSession_def insert_session_def expiry_def valid_time_def example_server_def)
  have held: "''s1'' \<in> dom (demoSessions ?st1) \<union> dom (db_sessions ?st1)"
    by simp
  have tm: "timeoutMinutes ?st1 = Some 30"
    by (simp add: example_server_def)
  have v: "valid_time (1200000 + 30 * 60 * 1000)"
    by (simp add: valid_time_def)
  from C4_refresh_sliding_expiration [OF held tm v, of 2700000] obtain st2 where
    r: "refreshSession ''s1'' 1200000 ?st1 = Inr st2"
    and e: "stored_expiration ''s1'' st2 = Some 3000000"
    and g: "map_option s_expiresAt (fst (getSession ''s1'' 2700000 st2)) = Some 3000000"
    by auto
  from C4_refresh_sliding_expiration [OF held tm v, of 3060000] r
  have n: "fst (getSession ''s1'' 3060000 st2) = None"
    by auto
  show ?thesis
    unfolding c using held tm v e g n by (simp add: r)
qed

text \<open>
  Claim C5.  When every record stored under a session id has its expiration before
  \<open>now\<close>, \<^verbatim>\<open>getSession\<close> at \<open>now\<close> returns null and deletes the record from the tier it
  read (the demo tier if the id is there, the durable tier otherwise), and a second read
  at any later time returns null too.
\<close>

theorem C5_expired_read_evicts:
  assumes held: "sessionId \<in> dom (demoSessions st) \<union> dom (db_sessions st)"
    and demo_expired: "\<And>s. demoSessions st sessionId = Some s \<Longrightarrow> s_expiresAt s < now"
    and db_expired: "\<And>r. db_sessions st sessionId = Some r \<Longrightarrow> r_expires_at r < now"
    and later: "now \<le> now'"
  shows "getSession sessionId now st =
           (None, if sessionId \<in> dom (demoSessions st)
                  then st\<lparr>demoSessions := (demoSessions st)(sessionId := None)\<rparr>
                  else st\<lparr>db_sessions := (db_sessions st)(sessionId := None)\<rparr>)
       \<and> fst (getSession sessionId now' (snd (getSession sessionId now st))) = None"
proof (cases "demoSessions st sessionId")
  case None
  then obtain r where r: "db_sessions st sessionId = Some r"
    using held by auto
  have first: "getSession sessionId now st =
          (None, st\<lparr>db_sessions := (db_sessions st)(sessionId := None)\<rparr>)"
    using None r db_expired [OF r] by (simp add: getSession_def deleteSession_def)
  have "fst (getSession sessionId now' (st\<lparr>db_sessions := (db_sessions st)(sessionId := None)\<rparr>)) = None"
    using None by (simp add: getSession_def)
  with first None show ?thesis
    by (simp add: domIff)
next
  case (Some s)
  have first: "getSession sessionId now st =
          (None, st\<lparr>demoSessions := (demoSessions st)(sessionId := None)\<rparr>)"
    using Some demo_expired [OF Some] by (simp add: getSession_def)
  have "fst (getSession sessionId now' (st\<lparr>demoSessions := (demoSessions st)(sessionId := None)\<rparr>)) = None"
  proof (cases "db_sessions st sessionId")
    case None
    then show ?thesis by (simp add: getSession_def)
  next
    case (Some r)
    with db_expired [OF Some] later show ?thesis
      by (simp add: getSession_def deleteSession_def)
  qed
  with first Some show ?thesis
    by (simp add: domIff)
qed

theorem C5_expired_read_evicts_witness:
  "case createSession ''d1'' 0 ''demo-user-id'' True example_server of
     Inl e \<Rightarrow> False
   | Inr (session, st1) \<Rightarrow>
       ''d1'' \<in> dom (demoSessions st1) \<union> dom (db_sessions st1)
       \<and> map_option s_expiresAt (demoSessions st1 ''d1'') = Some 1800000
       \<and> db_sessions st1 ''d1'' = None
       \<and> (1800000::int) < 1800001 \<and> (1800001::int) \<le> 1800002
       \<and> fst (getSession ''d1'' 1800001 st1) = None
       \<and> demoSessions (snd (getSession ''d1'' 1800001 st1)) ''d1'' = None
       \<and> fst (getSession ''d1'' 1800002 (snd (getSession ''d1'' 1800001 st1))) = None"
proof -
  let ?s = "\<lparr>s_id = ''d1'', s_userId = ''demo-user-id'', s_expiresAt = 1800000, s_createdAt = 0,
             s_isDemoMode = Some True\<rparr>"
  let ?st1 = "example_server\<lparr>demoSessions := (demoSessions example_server)(''d1'' \<mapsto> ?s)\<rparr>"
  have c: "createSession ''d1'' 0 ''demo-user-id'' True example_server = Inr (?s, ?st1)"
    by (simp add: createSession_demo expiry_def valid_time_def example_server_def)
  have held: "''d1'' \<in> dom (demoSessions ?st1) \<union> dom (db_sessions ?st1)"
    by simp
  have d: "\<And>s. demoSessions ?st1 ''d1'' = Some s \<Longrightarrow> s_expiresAt s < 1800001"
    by auto
  have r: "\<And>r. db_sessions ?st1 ''d1'' = Some r \<Longrightarrow> r_expires_at r < 1800001"
    by (simp add: example_server_def)
  have l: "(1800001::int) \<le> 1800002"
    by simp
  have r0: "db_sessions example_server ''d1'' = None"
    by (simp add: example_server_def)
  note ev = C5_expired_read_evicts [OF held d r l]
  have a: "getSession ''d1'' 1800001 ?st1 =
             (None, example_server\<lparr>demoSessions := (demoSessions example_server)(''d1'' := None)\<rparr>)"
    using ev by simp
  have b: "fst (getSession ''d1'' 1800002
             (example_server\<lparr>demoSessions := (demoSessions example_server)(''d1'' := None)\<rparr>)) = None"
    using ev by (simp add: a)
  show ?thesis
    unfolding c by (simp add: r0 a b)
qed

text \<open>
  Session ids are 32 random bytes, drawn afresh for every session.  As long as an id
  drawn is not in use, no id is ever held in both tiers, and then the record that
  \<^verbatim>\<open>getSession\<close> reads is the only one stored under the id.
\<close>

lemma createSession_tiers_disjoint:
  assumes "tiers_disjoint st" and "sessionId \<notin> dom (demoSessions st) \<union> dom (db_sessions st)"
    and "createSession sessionId now userId isDemoMode st = Inr (session, st1)"
  shows "tiers_disjoint st1"
  using assms
  by (auto simp: tiers_disjoint_def disjoint_iff domIff createSession_def insert_session_def Let_def
      split: if_splits sum.splits)

lemma getSession_tiers_disjoint:
  "tiers_disjoint st \<Longrightarrow> tiers_disjoint (snd (getSession sessionId now st))"
  by (auto simp: tiers_disjoint_def disjoint_iff domIff getSession_def deleteSession_def split: option.splits)

lemma refreshSession_tiers_disjoint:
  "tiers_disjoint st \<Longrightarrow> refreshSession sessionId now st = Inr st1 \<Longrightarrow> tiers_disjoint st1"
  by (fastforce simp: tiers_disjoint_def disjoint_iff domIff refreshSession_def
      split: option.splits sum.splits if_splits)

lemma deleteSession_tiers_disjoint:
  "tiers_disjoint st \<Longrightarrow> tiers_disjoint (deleteSession sessionId st)"
  by (auto simp: tiers_disjoint_def disjoint_iff domIff deleteSession_def)

lemma tiers_disjoint_expired:
  assumes "tiers_disjoint st" and "stored_expiration sessionId st = Some e" and "e < now"
  shows "(\<forall>s. demoSessions st sessionId = Some s \<longrightarrow> s_expiresAt s < now)
       \<and> (\<forall>r. db_sessions st sessionId = Some r \<longrightarrow> r_expires_at r < now)"
  using assms
  by (auto simp: tiers_disjoint_def disjoint_iff domIff stored_expiration_def split: option.splits)

section \<open>Access control: properties\<close>

lemma filter_key_le_one:
  "distinct (map f xs) \<Longrightarrow> length (filter (\<lambda>x. f x = k) xs) \<le> Suc 0"
proof (induction xs)
  case Nil
  then show ?case by simp
next
  case (Cons a as)
  show ?case
  proof (cases "f a = k")
    case True
    with Cons.prems have "filter (\<lambda>x. f x = k) as = []"
      by (force simp: filter_empty_conv image_iff)
    with True show ?thesis by simp
  next
    case False
    with Cons show ?thesis by simp
  qed
qed

lemma same_resource_key:
  "same_resource userId resourceType resourceId =
     (\<lambda>row. (ac_userId row, ac_resourceType row, ac_resourceId row) = (userId, resourceType, resourceId))"
  by (auto simp: same_resource_def fun_eq_iff)

lemma grant_rows_le_one:
  assumes "acl_schema st"
  shows "length (grant_rows userId resourceType resourceId st) \<le> Suc 0"
  using assms filter_key_le_one [of "\<lambda>row. (ac_userId row, ac_resourceType row, ac_resourceId row)"
      "db_access_control st" "(userId, resourceType, resourceId)"]
  by (simp add: grant_rows_def same_resource_key acl_schema_def)

lemma hasAccess_grant_rows:
  "hasAccess userId resourceType resourceId st \<longleftrightarrow> grant_rows userId resourceType resourceId st \<noteq> []"
  by (auto simp: hasAccess_def grant_rows_def list_ex_iff filter_empty_conv)

lemma grantAccess_present:
  assumes "hasAccess userId resourceType resourceId st"
  shows "\<exists>r. grantAccess aclId now userId resourceType resourceId st = Inr (r, st)"
  using assms by (auto simp: grantAccess_def hasAccess_def Let_def list_ex_iff)

lemma grantAccess_fresh:
  assumes "\<not> hasAccess userId resourceType resourceId st"
    and "aclId \<notin> ac_id ` set (db_access_control st)"
    and "db_foreign_keys st \<longrightarrow> userId \<in> dom (db_users st)"
  shows "\<exists>r. grantAccess aclId now userId resourceType resourceId st =
           Inr (r, st\<lparr>db_access_control := db_access_control st @
                  [\<lparr>ac_id = aclId, ac_userId = userId, ac_resourceType = resourceType,
                    ac_resourceId = resourceId, ac_createdAt = (now div 1000) * 1000\<rparr>]\<rparr>)"
  using assms by (auto simp: grantAccess_def hasAccess_def Let_def list_ex_iff)

lemma grantAccess_schema:
  assumes "acl_schema st" and "grantAccess aclId now userId resourceType resourceId st = Inr (r, st1)"
  shows "acl_schema st1"
  using assms
  by (auto simp: grantAccess_def acl_schema_def Let_def list_ex_iff same_resource_def
      split: if_splits)

lemma revokeAccess_schema:
  "acl_schema st \<Longrightarrow> acl_schema (revokeAccess userId resourceType resourceId st)"
  by (simp add: acl_schema_def revokeAccess_def distinct_map_filter)

lemma revokeAccess_absent:
  assumes "\<not> hasAccess userId resourceType resourceId st"
  shows "revokeAccess userId resourceType resourceId st = st"
proof -
  have "filter (\<lambda>row. \<not> same_resource userId resourceType resourceId row) (db_access_control st)
          = db_access_control st"
    using assms by (auto simp: hasAccess_def list_ex_iff filter_id_conv)
  then show ?thesis
    by (simp add: revokeAccess_def)
qed

text \<open>
  Claim C6.  On a table that satisfies its schema, for a user the database knows, and
  with a generated id not yet in use (or the grant already present), \<^verbatim>\<open>grantAccess\<close>
  called twice for one (user, kind, resource) succeeds both times, the second call
  changes nothing, and the table then holds exactly one entry for the triple.
  \<^verbatim>\<open>revokeAccess\<close> for a triple with no grant leaves the state as it was; it has no way to
  fail.
\<close>

theorem C6_grant_idempotent_revoke_noop:
  assumes schema: "acl_schema st"
    and fresh: "hasAccess userId resourceType resourceId st \<or> aclId1 \<notin> ac_id ` set (db_access_control st)"
    and known: "db_foreign_keys st \<longrightarrow> userId \<in> dom (db_users st)"
  shows "(\<exists>r1 r2 st1.
            grantAccess aclId1 now1 userId resourceType resourceId st = Inr (r1, st1)
          \<and> grantAccess aclId2 now2 userId resourceType resourceId st1 = Inr (r2, st1)
          \<and> length (grant_rows userId resourceType resourceId st1) = 1)
       \<and> (\<not> hasAccess userId' resourceType' resourceId' st \<longrightarrow>
            revokeAccess userId' resourceType' resourceId' st = st)"
proof
  obtain r1 st1 where g1: "grantAccess aclId1 now1 userId resourceType resourceId st = Inr (r1, st1)"
    and has1: "hasAccess userId resourceType resourceId st1"
  proof (cases "hasAccess userId resourceType resourceId st")
    case True
    with grantAccess_present [OF True, of aclId1 now1] that show ?thesis
      by blast
  next
    case False
    with fresh have f: "aclId1 \<notin> ac_id ` set (db_access_control st)"
      by simp
    from grantAccess_fresh [OF False f known, of now1] obtain r where
      "grantAccess aclId1 now1 userId resourceType resourceId st =
           Inr (r, st\<lparr>db_access_control := db_access_control st @
                  [\<lparr>ac_id = aclId1, ac_userId = userId, ac_resourceType = resourceType,
                    ac_resourceId = resourceId, ac_createdAt = (now1 div 1000) * 1000\<rparr>]\<rparr>)"
      by blast
    moreover have "hasAccess userId resourceType resourceId
        (st\<lparr>db_access_control := db_access_control st @
                  [\<lparr>ac_id = aclId1, ac_userId = userId, ac_resourceType = resourceType,
                    ac_resourceId = resourceId, ac_createdAt = (now1 div 1000) * 1000\<rparr>]\<rparr>)"
      by (simp add: hasAccess_def same_resource_def)
    ultimately show ?thesis
      using that by blast
  qed
  from grantAccess_present [OF has1, of aclId2 now2] obtain r2 where
    g2: "grantAccess aclId2 now2 userId resourceType resourceId st1 = Inr (r2, st1)"
    by blast
  have "acl_schema st1"
    using schema g1 by (rule grantAccess_schema)
  then have "length (grant_rows userId resourceType resourceId st1) \<le> Suc 0"
    by (rule grant_rows_le_one)
  moreover have "grant_rows userId resourceType resourceId st1 \<noteq> []"
    using has1 by (simp add: hasAccess_grant_rows)
  ultimately have "length (grant_rows userId resourceType resourceId st1) = 1"
    by (cases "grant_rows userId resourceType resourceId st1") auto
  with g1 g2 show "\<exists>r1 r2 st1.
            grantAccess aclId1 now1 userId resourceType resourceId st = Inr (r1, st1)
          \<and> grantAccess aclId2 now2 userId resourceType resourceId st1 = Inr (r2, st1)
          \<and> length (grant_rows userId resourceType resourceId st1) = 1"
    by blast
next
  show "\<not> hasAccess userId' resourceType' resourceId' st \<longrightarrow>
            revokeAccess userId' resourceType' resourceId' st = st"
    by (simp add: revokeAccess_absent)
qed

theorem C6_grant_idempotent_revoke_noop_witness:
  "acl_schema example_server
   \<and> ''a1'' \<notin> ac_id ` set (db_access_control example_server)
   \<and> ''u1'' \<in> dom (db_users example_server)
   \<and> (case grantAccess ''a1'' 5000 ''u1'' Device ''d1'' example_server of
         Inl e \<Rightarrow> False
       | Inr (r1, st1) \<Rightarrow>
           (case grantAccess ''a2'' 6000 ''u1'' Device ''d1'' st1 of
              Inl e \<Rightarrow> False
            | Inr (r2, st2) \<Rightarrow>
                db_access_control st2 = db_access_control st1
                \<and> length (grant_rows ''u1'' Device ''d1'' st2) = 1))
   \<and> \<not> hasAccess ''u1'' Room ''r9'' example_server
   \<and> revokeAccess ''u1'' Room ''r9'' example_server = example_server"
proof -
  have schema: "acl_schema example_server"
    by (simp add: acl_schema_def example_server_def)
  have fresh: "''a1'' \<notin> ac_id ` set (db_access_control example_server)"
    by (simp add: example_server_def)
  have known: "''u1'' \<in> dom (db_users example_server)"
    by (simp add: example_server_def)
  have absent: "\<not> hasAccess ''u1'' Room ''r9'' example_server"
    by (simp add: hasAccess_def example_server_def)
  from C6_grant_idempotent_revoke_noop [where st = example_server and userId = "''u1''"
      and resourceType = Device and resourceId = "''d1''" and ?aclId1.0 = "''a1''"
      and userId' = "''u1''" and resourceType' = Room and resourceId' = "''r9''"
      and ?now1.0 = 5000 and ?aclId2.0 = "''a2''" and ?now2.0 = 6000] schema fresh known absent
  obtain r1 r2 st1 where
    g1: "grantAccess ''a1'' 5000 ''u1'' Device ''d1'' example_server = Inr (r1, st1)"
    and g2: "grantAccess ''a2'' 6000 ''u1'' Device ''d1'' st1 = Inr (r2, st1)"
    and one: "length (grant_rows ''u1'' Device ''d1'' st1) = 1"
    and rv: "revokeAccess ''u1'' Room ''r9'' example_server = example_server"
    by auto
  show ?thesis
    using schema fresh known absent by (simp add: g1 g2 one rv)
qed

text \<open>
  Claim C1.  The gate of the routes with a device id, \<^verbatim>\<open>deviceACLMiddleware\<close>, consults
  direct device grants only.  After \<^verbatim>\<open>grantAccess(u1, 'room', r1)\<close>, with devices d1 and
  d2 in room r1 and no device grant, the device list that \<^verbatim>\<open>filterDevicesByACL\<close> returns
  to the standard user u1 holds both devices, and the gate answers 403 for each.
\<close>

theorem C1_room_grant_denied_by_device_gate:
  "case grantAccess ''a1'' 0 ''u1'' Room ''r1'' example_server of
     Inl e \<Rightarrow> False
   | Inr (r, st) \<Rightarrow>
       hasAccess ''u1'' Room ''r1'' st
       \<and> filterDevicesByACL
            [\<lparr>dev_deviceId = ''d1'', dev_roomId = Some ''r1''\<rparr>,
             \<lparr>dev_deviceId = ''d2'', dev_roomId = Some ''r1''\<rparr>] ''u1'' RoleUser st
           = [\<lparr>dev_deviceId = ''d1'', dev_roomId = Some ''r1''\<rparr>,
              \<lparr>dev_deviceId = ''d2'', dev_roomId = Some ''r1''\<rparr>]
       \<and> deviceACLMiddleware example_request st =
            Sent \<lparr>rp_code = 403, rp_error = ''Access denied'',
                  rp_message = Some ''You do not have permission to access this device'',
                  rp_requiresPasswordChange = None\<rparr>
       \<and> deviceACLMiddleware (example_request\<lparr>rq_params_deviceId := ''d2''\<rparr>) st =
            Sent \<lparr>rp_code = 403, rp_error = ''Access denied'',
                  rp_message = Some ''You do not have permission to access this device'',
                  rp_requiresPasswordChange = None\<rparr>"
  by code_simp

lemma deviceACLMiddleware_standard_user:
  assumes "rq_isDemoMode req \<noteq> Some True" and "rq_user req = Some resolved"
    and "u_role resolved = RoleUser"
  shows "deviceACLMiddleware req st = Continue req \<longleftrightarrow>
           hasAccess (u_id resolved) Device (rq_params_deviceId req) st"
  using assms by (simp add: deviceACLMiddleware_def)

lemma deviceACLMiddleware_direct_grant:
  assumes "rq_user req = Some resolved" and "hasAccess (u_id resolved) Device (rq_params_deviceId req) st"
  shows "deviceACLMiddleware req st = Continue req"
  using assms by (simp add: deviceACLMiddleware_def)

section \<open>Request pipeline: properties\<close>

lemma authMiddleware_sent_401:
  assumes "authMiddleware req now st = (Sent r, st1)"
  shows "rp_code r = 401 \<and> rp_requiresPasswordChange r = None"
  using assms
  by (auto simp: authMiddleware_def split: option.splits if_splits prod.splits sum.splits)

lemma authMiddleware_continue_url:
  assumes "authMiddleware req now st = (Continue req1, st1)"
  shows "rq_url req1 = rq_url req"
  using assms
  by (auto simp: authMiddleware_def split: option.splits if_splits prod.splits sum.splits)

text \<open>
  Claim C9, amended.  Take a request that \<^verbatim>\<open>authMiddleware\<close> lets through with a resolved
  user whose \<^verbatim>\<open>firstLogin\<close> flag is set.  On every route whose hooks start with the two
  hooks of the gated plugins (devices, scenes, analytics, admin), unless the URL is
  \<^verbatim>\<open>/api/auth/change-password\<close>, the answer is the gate's 403 with
  \<^verbatim>\<open>requiresPasswordChange: true\<close>, whatever the handler and the later hooks are, so the
  handler does not run; on that URL the gate lets the request pass.  Every reply that
  \<^verbatim>\<open>authMiddleware\<close> itself sends has status 401 and no such field.  On the routes of the
  auth plugin, which carry \<^verbatim>\<open>authMiddleware\<close> alone, the same request reaches the handler.
\<close>

theorem C9_first_login_gate:
  assumes auth: "authMiddleware req now st = (Continue req1, st1)"
    and resolved: "rq_user req1 = Some resolved"
    and flag: "u_firstLogin resolved"
  shows "(rq_url req \<noteq> ''/api/auth/change-password'' \<longrightarrow>
            firstLoginMiddleware req1 =
              Sent \<lparr>rp_code = 403, rp_error = ''Password change required'', rp_message = None,
                    rp_requiresPasswordChange = Some True\<rparr>
          \<and> route (plugin_hooks @ route_hooks) handler req now st =
              (Replied \<lparr>rp_code = 403, rp_error = ''Password change required'', rp_message = None,
                        rp_requiresPasswordChange = Some True\<rparr>, st1))
       \<and> (rq_url req = ''/api/auth/change-password'' \<longrightarrow> firstLoginMiddleware req1 = Continue req1)
       \<and> (\<forall>req' now' st' r st''. authMiddleware req' now' st' = (Sent r, st'') \<longrightarrow>
             rp_code r = 401 \<and> rp_requiresPasswordChange r = None)
       \<and> route auth_hooks handler req now st = (Handled (handler req1 st1), st1)"
proof -
  have url: "rq_url req1 = rq_url req"
    using auth by (rule authMiddleware_continue_url)
  show ?thesis
    using auth resolved flag url authMiddleware_sent_401
    by (auto simp: firstLoginMiddleware_def route_def plugin_hooks_def firstLoginHook_def
        auth_hooks_def)
qed

theorem C9_first_login_gate_witness:
  "(case authMiddleware example_first_login_request 1000 example_first_login_server of
      (Continue req1, st1) \<Rightarrow>
         map_option u_firstLogin (rq_user req1) = Some True
         \<and> route device_hooks me_handler example_first_login_request 1000 example_first_login_server =
             (Replied \<lparr>rp_code = 403, rp_error = ''Password change required'', rp_message = None,
                       rp_requiresPasswordChange = Some True\<rparr>, st1)
         \<and> route auth_hooks me_handler example_first_login_request 1000 example_first_login_server =
             (Handled (rq_user req1), st1)
    | (other, st1) \<Rightarrow> False)
   \<and> rq_url example_first_login_request \<noteq> ''/api/auth/change-password''
   \<and> (case authMiddleware (example_first_login_request\<lparr>rq_url := ''/api/auth/change-password''\<rparr>) 1000
             example_first_login_server of
        (Continue req3, st3) \<Rightarrow>
           map_option u_firstLogin (rq_user req3) = Some True
           \<and> firstLoginMiddleware req3 = Continue req3
      | (other, st3) \<Rightarrow> False)
   \<and> fst (authMiddleware (example_first_login_request\<lparr>rq_cookies_sessionId := None\<rparr>) 1000
        example_first_login_server) =
       Sent \<lparr>rp_code = 401, rp_error = ''Not authenticated'', rp_message = None,
             rp_requiresPasswordChange = None\<rparr>"
proof -
  let ?bob = "\<lparr>u_id = ''u2'', u_username = ''bob'', u_role = RoleUser, u_firstLogin = True\<rparr>"
  let ?req2 = "example_first_login_request\<lparr>rq_url := ''/api/auth/change-password''\<rparr>"
  obtain req1 st1 where
    a1: "authMiddleware example_first_login_request 1000 example_first_login_server = (Continue req1, st1)"
    and u1: "rq_user req1 = Some ?bob"
    by (simp add: authMiddleware_def getSession_def refreshSession_def expiry_def valid_time_def
        example_first_login_request_def example_first_login_server_def example_server_def
        session_of_row_def getUserById_def)
  obtain req3 st3 where
    a2: "authMiddleware ?req2 1000 example_first_login_server = (Continue req3, st3)"
    and u3: "rq_user req3 = Some ?bob"
    by (simp add: authMiddleware_def getSession_def refreshSession_def expiry_def valid_time_def
        example_first_login_request_def example_first_login_server_def example_server_def
        session_of_row_def getUserById_def)
  have f: "u_firstLogin ?bob"
    by simp
  have url1: "rq_url example_first_login_request \<noteq> ''/api/auth/change-password''"
    by (simp add: example_first_login_request_def)
  have url2: "rq_url ?req2 = ''/api/auth/change-password''"
    by simp
  have a3: "fst (authMiddleware (example_first_login_request\<lparr>rq_cookies_sessionId := None\<rparr>) 1000
        example_first_login_server) =
       Sent \<lparr>rp_code = 401, rp_error = ''Not authenticated'', rp_message = None,
             rp_requiresPasswordChange = None\<rparr>"
    by (simp add: authMiddleware_def)
  note g1 = C9_first_login_gate [OF a1 u1 f, where route_hooks = "[deviceACLHook]" and handler = me_handler]
  note g2 = C9_first_login_gate [OF a2 u3 f, where route_hooks = "[deviceACLHook]" and handler = me_handler]
  have r1: "route device_hooks me_handler example_first_login_request 1000 example_first_login_server =
       (Replied \<lparr>rp_code = 403, rp_error = ''Password change required'', rp_message = None,
                 rp_requiresPasswordChange = Some True\<rparr>, st1)"
    using g1 url1 by (simp add: device_hooks_def)
  have r1': "route auth_hooks me_handler example_first_login_request 1000 example_first_login_server =
       (Handled (rq_user req1), st1)"
    using g1 u1 by (simp add: me_handler_def)
  have r2: "firstLoginMiddleware req3 = Continue req3"
    using g2 url2 by simp
  show ?thesis
    using url1 r1 r1' r2 a3 u1 u3 by (simp add: a1 a2)
qed

text \<open>
  The claim as stated, that the password-change endpoint is the only route let through,
  fails on the auth plugin: the user u2, whose \<^verbatim>\<open>firstLogin\<close> flag is set, sends
  \<^verbatim>\<open>GET /api/auth/me\<close> with a valid session, and the handler runs and returns the profile.
\<close>

theorem C9_auth_routes_counterexample:
  "map_option u_firstLogin (db_users example_first_login_server ''u2'') = Some True
   \<and> fst (route auth_hooks me_handler (example_first_login_request\<lparr>rq_url := ''/api/auth/me''\<rparr>) 1000
          example_first_login_server)
      = Handled (Some \<lparr>u_id = ''u2'', u_username = ''bob'', u_role = RoleUser, u_firstLogin = True\<rparr>)"
  by (simp add: route_def auth_hooks_def authMiddleware_def getSession_def refreshSession_def
      expiry_def valid_time_def example_first_login_request_def example_first_login_server_def
      example_server_def session_of_row_def getUserById_def me_handler_def)

lemma getSession_durable_flag:
  assumes "sessionId \<notin> dom (demoSessions st)" and "getSession sessionId now st = (Some session, st1)"
  shows "s_isDemoMode session = None"
  using assms
  by (auto simp: getSession_def session_of_row_def domIff split: option.splits if_splits)

lemma getSession_demo_flag:
  assumes "getSession sessionId now st = (Some session, st1)" and "s_isDemoMode session = Some True"
  shows "sessionId \<in> dom (demoSessions st)"
  using assms getSession_durable_flag [of sessionId st now session st1]
  by auto

lemma authMiddleware_durable_flag:
  assumes "sessionId \<notin> dom (demoSessions st)" and "rq_cookies_sessionId req = Some sessionId"
    and "authMiddleware req now st = (Continue req1, st2)"
  shows "rq_isDemoMode req1 = Some False"
proof (cases "getSession sessionId now st")
  case (Pair got st1)
  show ?thesis
  proof (cases got)
    case None
    with Pair assms show ?thesis
      by (auto simp: authMiddleware_def split: if_splits)
  next
    case (Some session)
    with Pair assms(1) have "s_isDemoMode session = None"
      using getSession_durable_flag by blast
    with Pair Some assms show ?thesis
      by (auto simp: authMiddleware_def split: if_splits option.splits sum.splits)
  qed
qed

lemma on_connection_durable_flag:
  assumes "sessionId \<notin> dom (demoSessions st)"
    and "on_connection cid (Some sessionId) now (h, st) = (out, h1, st3)"
  shows "\<exists>ws. sockets h1 cid = Some ws \<and> ws_isDemoMode ws = (if out = [] then None else Some False)"
proof (cases "getSession sessionId now st")
  case (Pair got st1)
  show ?thesis
  proof (cases got)
    case None
    with Pair assms show ?thesis
      by (auto simp: on_connection_def Let_def split: if_splits)
  next
    case (Some session)
    with Pair assms(1) have "s_isDemoMode session = None"
      using getSession_durable_flag by blast
    with Pair Some assms show ?thesis
      by (auto simp: on_connection_def Let_def split: if_splits)
  qed
qed

text \<open>
  Claim C10.  A session that \<^verbatim>\<open>getSession\<close> returns with the demo flag true is held in
  \<^verbatim>\<open>demoSessions\<close>.  For an id that is not in \<^verbatim>\<open>demoSessions\<close>, a session returned has no
  demo flag at all, whatever the row holds; \<^verbatim>\<open>authMiddleware\<close> then sets
  \<^verbatim>\<open>request.isDemoMode\<close> to false, and the connection handler sets \<^verbatim>\<open>ws.isDemoMode\<close> to
  false on the socket it accepts (and leaves it undefined on one it rejects).
\<close>

theorem C10_durable_sessions_are_production_mode:
  "(getSession sessionId now st = (Some session, st1) \<and> s_isDemoMode session = Some True
      \<longrightarrow> sessionId \<in> dom (demoSessions st))
   \<and> (sessionId \<notin> dom (demoSessions st) \<and> getSession sessionId now st = (Some session, st1)
      \<longrightarrow> s_isDemoMode session = None)
   \<and> (sessionId \<notin> dom (demoSessions st) \<and> rq_cookies_sessionId req = Some sessionId
        \<and> authMiddleware req now st = (Continue req1, st2)
      \<longrightarrow> rq_isDemoMode req1 = Some False)
   \<and> (sessionId \<notin> dom (demoSessions st)
        \<and> on_connection cid (Some sessionId) now (h, st) = (out, h1, st3)
      \<longrightarrow> (\<exists>ws. sockets h1 cid = Some ws
               \<and> ws_isDemoMode ws = (if out = [] then None else Some False)))"
proof (intro conjI impI)
  assume "getSession sessionId now st = (Some session, st1) \<and> s_isDemoMode session = Some True"
  then show "sessionId \<in> dom (demoSessions st)"
    using getSession_demo_flag [of sessionId now st session st1] by simp
next
  assume "sessionId \<notin> dom (demoSessions st) \<and> getSession sessionId now st = (Some session, st1)"
  then show "s_isDemoMode session = None"
    using getSession_durable_flag [of sessionId st now session st1] by simp
next
  assume "sessionId \<notin> dom (demoSessions st) \<and> rq_cookies_sessionId req = Some sessionId
        \<and> authMiddleware req now st = (Continue req1, st2)"
  then show "rq_isDemoMode req1 = Some False"
    using authMiddleware_durable_flag [of sessionId st req now req1 st2] by simp
next
  assume "sessionId \<notin> dom (demoSessions st)
        \<and> on_connection cid (Some sessionId) now (h, st) = (out, h1, st3)"
  then show "\<exists>ws. sockets h1 cid = Some ws
               \<and> ws_isDemoMode ws = (if out = [] then None else Some False)"
    using on_connection_durable_flag [of sessionId st cid now h out h1 st3] by simp
qed

theorem C10_durable_sessions_are_production_mode_witness:
  "''s2'' \<notin> dom (demoSessions example_first_login_server)
   \<and> getSession ''s2'' 1000 example_first_login_server =
        (Some \<lparr>s_id = ''s2'', s_userId = ''u2'', s_expiresAt = 1800000, s_createdAt = 0,
               s_isDemoMode = None\<rparr>, example_first_login_server)
   \<and> rq_cookies_sessionId example_first_login_request = Some ''s2''
   \<and> (case authMiddleware example_first_login_request 1000 example_first_login_server of
         (Continue req1, st2) \<Rightarrow> rq_isDemoMode req1 = Some False
       | (other, st2) \<Rightarrow> False)
   \<and> (case on_connection 3 (Some ''s2'') 1000 (example_hub, example_first_login_server) of
         (out, h1, st3) \<Rightarrow>
            out = [(3, Connected 1000)]
            \<and> map_option ws_isDemoMode (sockets h1 3) = Some (Some False)
            \<and> map_option ws_userId (sockets h1 3) = Some (Some ''u2''))"
proof -
  let ?st = example_first_login_server
  let ?session = "\<lparr>s_id = ''s2'', s_userId = ''u2'', s_expiresAt = 1800000, s_createdAt = 0,
               s_isDemoMode = None\<rparr>"
  have nd: "''s2'' \<notin> dom (demoSessions ?st)"
    by (simp add: example_first_login_server_def example_server_def)
  have g: "getSession ''s2'' 1000 ?st = (Some ?session, ?st)"
    by (simp add: getSession_def example_first_login_server_def example_server_def
        session_of_row_def)
  have ck: "rq_cookies_sessionId example_first_login_request = Some ''s2''"
    by (simp add: example_first_login_request_def)
  obtain req1 st2 where a: "authMiddleware example_first_login_request 1000 ?st = (Continue req1, st2)"
    by (simp add: authMiddleware_def g getUserById_def ck)
      (simp add: refreshSession_def expiry_def valid_time_def example_first_login_server_def
        example_server_def)
  obtain out h1 st3 where c: "on_connection 3 (Some ''s2'') 1000 (example_hub, ?st) = (out, h1, st3)"
    and o: "out = [(3, Connected 1000)]"
    and u: "map_option ws_userId (sockets h1 3) = Some (Some ''u2'')"
    by (simp add: on_connection_def g Let_def)
  note t = C10_durable_sessions_are_production_mode [where sessionId = "''s2''" and st = ?st
      and now = 1000 and session = ?session and ?st1.0 = ?st and req = example_first_login_request
      and ?req1.0 = req1 and ?st2.0 = st2 and cid = 3 and h = example_hub and out = out
      and ?h1.0 = h1 and ?st3.0 = st3]
  have f1: "rq_isDemoMode req1 = Some False"
    using t nd ck a by simp
  have f2: "map_option ws_isDemoMode (sockets h1 3) = Some (Some False)"
    using t nd c o by auto
  show ?thesis
    using nd g ck f1 f2 u by (simp add: a c o)
qed

section \<open>Connection hub: properties\<close>

text \<open>
  Claim C3.  \<^verbatim>\<open>broadcastDeviceUpdate\<close> with flag \<open>b\<close> sends to a socket exactly when the socket
  is in \<^verbatim>\<open>wss.clients\<close>, is OPEN and has \<^verbatim>\<open>isDemoMode\<close> equal to \<open>b\<close>.  A socket of the
  other mode, or one whose flag is still undefined, gets nothing, whichever user it
  belongs to.  The witness has one socket of each mode under the same user id.
\<close>

theorem C3_broadcast_mode_isolation:
  "cid \<in> fst ` set (broadcastDeviceUpdate deviceId status now b h) \<longleftrightarrow>
     (\<exists>cs ws. wss_clients h = Some cs \<and> cid \<in> set cs \<and> sockets h cid = Some ws
         \<and> ws_readyState ws = OPEN \<and> ws_isDemoMode ws = Some b)"
proof (cases "wss_clients h")
  case None
  then show ?thesis by (simp add: broadcastDeviceUpdate_def)
next
  case (Some cs)
  then show ?thesis
    by (auto simp: broadcastDeviceUpdate_def image_iff split: option.splits)
qed

theorem C3_broadcast_mode_isolation_witness:
  "broadcastDeviceUpdate ''d1'' ''on'' 1000 False example_mixed_hub = [(3, DeviceUpdate ''d1'' ''on'' 1000)]
   \<and> 4 \<notin> fst ` set (broadcastDeviceUpdate ''d1'' ''on'' 1000 False example_mixed_hub)
   \<and> broadcastDeviceUpdate ''d1'' ''on'' 1000 True example_mixed_hub = [(4, DeviceUpdate ''d1'' ''on'' 1000)]
   \<and> 3 \<notin> fst ` set (broadcastDeviceUpdate ''d1'' ''on'' 1000 True example_mixed_hub)"
proof -
  have s3: "map_option ws_isDemoMode (sockets example_mixed_hub 3) = Some (Some False)"
    and s4: "map_option ws_isDemoMode (sockets example_mixed_hub 4) = Some (Some True)"
    by (simp_all add: example_mixed_hub_def)
  have n4: "4 \<notin> fst ` set (broadcastDeviceUpdate ''d1'' ''on'' 1000 False example_mixed_hub)"
    using C3_broadcast_mode_isolation [of 4 "''d1''" "''on''" 1000 False example_mixed_hub] s4
    by auto
  have n3: "3 \<notin> fst ` set (broadcastDeviceUpdate ''d1'' ''on'' 1000 True example_mixed_hub)"
    using C3_broadcast_mode_isolation [of 3 "''d1''" "''on''" 1000 True example_mixed_hub] s3
    by auto
  have b1: "broadcastDeviceUpdate ''d1'' ''on'' 1000 False example_mixed_hub = [(3, DeviceUpdate ''d1'' ''on'' 1000)]"
    by code_simp
  have b2: "broadcastDeviceUpdate ''d1'' ''on'' 1000 True example_mixed_hub = [(4, DeviceUpdate ''d1'' ''on'' 1000)]"
    by code_simp
  show ?thesis
    using n3 n4 b1 b2 by blast
qed

lemma close_listener_sockets [simp]: "sockets (close_listener c h) = sockets h"
  by (simp add: close_listener_def split: option.splits)

lemma close_listener_wss [simp]: "wss_clients (close_listener c h) = wss_clients h"
  by (simp add: close_listener_def split: option.splits)

lemma close_listener_clients_subset:
  "clients (close_listener c h) u = Some l \<Longrightarrow> \<exists>l0. clients h u = Some l0 \<and> set l \<subseteq> set l0"
  by (auto simp: close_listener_def split: option.splits if_splits)

lemma transport_closed_sockets:
  "sockets (transport_closed c h) =
     (case sockets h c of None \<Rightarrow> sockets h
      | Some ws \<Rightarrow> (sockets h)(c \<mapsto> ws\<lparr>ws_readyState := CLOSED\<rparr>))"
  by (simp add: transport_closed_def Let_def split: option.splits)

lemma transport_closed_wss:
  "wss_clients (transport_closed c h) =
     (case sockets h c of None \<Rightarrow> wss_clients h
      | Some ws \<Rightarrow> map_option (removeAll c) (wss_clients h))"
  by (simp add: transport_closed_def Let_def split: option.splits)

lemma transport_closed_clients_subset:
  "clients (transport_closed c h) u = Some l \<Longrightarrow> \<exists>l0. clients h u = Some l0 \<and> set l \<subseteq> set l0"
  by (auto simp: transport_closed_def Let_def split: option.splits if_splits
      dest: close_listener_clients_subset)

lemma transport_closed_removed:
  "removed c u h \<Longrightarrow> removed c u (transport_closed c' h)"
  unfolding removed_def
  apply (intro conjI)
    apply (auto simp: transport_closed_sockets split: option.splits)[1]
   apply (auto simp: transport_closed_wss split: option.splits)[1]
  apply (auto split: option.splits dest!: transport_closed_clients_subset)
  done

lemma transport_closed_stale_other:
  "stale c u h \<Longrightarrow> c' \<noteq> c \<Longrightarrow> stale c u (transport_closed c' h)"
  by (auto simp: stale_def attached_def transport_closed_sockets transport_closed_wss
      split: option.splits)

lemma transport_closed_attached_other:
  "attached c u h \<Longrightarrow> c' \<noteq> c \<Longrightarrow> attached c u (transport_closed c' h)"
  by (auto simp: attached_def transport_closed_sockets transport_closed_wss
      split: option.splits)

lemma close_listener_removes:
  assumes "sockets h c = Some ws" and "ws_userId ws = Some u"
  shows "case clients (close_listener c h) u of None \<Rightarrow> True | Some l \<Rightarrow> c \<notin> set l"
  using assms by (auto simp: close_listener_def split: option.splits)

lemma transport_closed_attached_self:
  assumes "attached c u h"
  shows "removed c u (transport_closed c h)"
proof -
  from assms obtain ws where ws: "sockets h c = Some ws" "ws_userId ws = Some u" "ws_listening ws"
    by (auto simp: attached_def split: option.splits)
  let ?h1 = "h\<lparr>sockets := (sockets h)(c \<mapsto> ws\<lparr>ws_readyState := CLOSED\<rparr>),
                wss_clients := map_option (removeAll c) (wss_clients h)\<rparr>"
  have tc: "transport_closed c h = close_listener c ?h1"
    using ws by (simp add: transport_closed_def Let_def)
  have "case clients (close_listener c ?h1) u of None \<Rightarrow> True | Some l \<Rightarrow> c \<notin> set l"
    by (rule close_listener_removes [where ws = "ws\<lparr>ws_readyState := CLOSED\<rparr>"]) (simp_all add: ws)
  then show ?thesis
    unfolding removed_def tc by (auto split: option.splits)
qed

lemma heartbeat_client_removed:
  "removed c u h \<Longrightarrow> removed c u (heartbeat_client c' h)"
  by (auto simp: heartbeat_client_def terminate_def transport_closed_removed split: option.splits)
    (auto simp: removed_def)

lemma heartbeat_client_stale_other:
  "stale c u h \<Longrightarrow> c' \<noteq> c \<Longrightarrow> stale c u (heartbeat_client c' h)"
  by (auto simp: heartbeat_client_def terminate_def transport_closed_stale_other split: option.splits)
    (auto simp: stale_def attached_def split: option.splits)

lemma heartbeat_client_attached_other:
  "attached c u h \<Longrightarrow> c' \<noteq> c \<Longrightarrow> attached c u (heartbeat_client c' h)"
  by (auto simp: heartbeat_client_def terminate_def transport_closed_attached_other split: option.splits)
    (auto simp: attached_def split: option.splits)

lemma heartbeat_client_stale_self:
  "stale c u h \<Longrightarrow> removed c u (heartbeat_client c h)"
  by (auto simp: heartbeat_client_def terminate_def stale_def transport_closed_attached_self
      split: option.splits)

lemma heartbeat_client_attached_self:
  "attached c u h \<Longrightarrow> stale c u (heartbeat_client c h) \<or> removed c u (heartbeat_client c h)"
proof (cases "map_option ws_isAlive (sockets h c) = Some (Some False)")
  case True
  assume "attached c u h"
  with True have "stale c u h" by (simp add: stale_def)
  then show ?thesis by (simp add: heartbeat_client_stale_self)
next
  case False
  assume "attached c u h"
  with False have "stale c u (heartbeat_client c h)"
    by (auto simp: heartbeat_client_def stale_def attached_def split: option.splits)
  then show ?thesis by simp
qed

lemma fold_heartbeat_removed:
  "removed c u h \<Longrightarrow> removed c u (fold heartbeat_client cs h)"
  by (induction cs arbitrary: h) (simp_all add: heartbeat_client_removed)

lemma fold_heartbeat_stale:
  "stale c u h \<or> removed c u h \<Longrightarrow>
     stale c u (fold heartbeat_client cs h) \<or> removed c u (fold heartbeat_client cs h)"
proof (induction cs arbitrary: h)
  case Nil
  then show ?case by simp
next
  case (Cons a cs)
  have "stale c u (heartbeat_client a h) \<or> removed c u (heartbeat_client a h)"
    using Cons.prems heartbeat_client_removed [of c u h a] heartbeat_client_stale_other [of c u h a]
      heartbeat_client_stale_self [of c u h]
    by (cases "a = c") auto
  then show ?case
    using Cons.IH by simp
qed

lemma fold_heartbeat_stale_visited:
  "stale c u h \<or> removed c u h \<Longrightarrow> c \<in> set cs \<or> removed c u h \<Longrightarrow>
     removed c u (fold heartbeat_client cs h)"
proof (induction cs arbitrary: h)
  case Nil
  then show ?case by simp
next
  case (Cons a cs)
  show ?case
  proof (cases "removed c u h")
    case True
    then show ?thesis
      using fold_heartbeat_removed [of c u h "a # cs"] by simp
  next
    case False
    with Cons.prems have st: "stale c u h" and mem: "c \<in> set (a # cs)"
      by auto
    show ?thesis
    proof (cases "a = c")
      case True
      with st have "removed c u (heartbeat_client a h)"
        by (simp add: heartbeat_client_stale_self)
      then show ?thesis
        using fold_heartbeat_removed [of c u "heartbeat_client a h" cs] by simp
    next
      case False
      with st mem have "stale c u (heartbeat_client a h)" and "c \<in> set cs"
        by (simp_all add: heartbeat_client_stale_other)
      then show ?thesis
        using Cons.IH [of "heartbeat_client a h"] by simp
    qed
  qed
qed

lemma fold_heartbeat_attached_visited:
  "attached c u h \<Longrightarrow> c \<in> set cs \<Longrightarrow>
     stale c u (fold heartbeat_client cs h) \<or> removed c u (fold heartbeat_client cs h)"
proof (induction cs arbitrary: h)
  case Nil
  then show ?case by simp
next
  case (Cons a cs)
  show ?case
  proof (cases "a = c")
    case True
    with Cons.prems(1) have "stale c u (heartbeat_client a h) \<or> removed c u (heartbeat_client a h)"
      by (simp add: heartbeat_client_attached_self)
    then show ?thesis
      using fold_heartbeat_stale [of c u "heartbeat_client a h" cs] by simp
  next
    case False
    with Cons.prems have "attached c u (heartbeat_client a h)" and "c \<in> set cs"
      by (simp_all add: heartbeat_client_attached_other)
    then show ?thesis
      using Cons.IH [of "heartbeat_client a h"] by simp
  qed
qed

lemma heartbeat_attached:
  assumes "attached c u h"
  shows "stale c u (heartbeat h) \<or> removed c u (heartbeat h)"
proof -
  from assms obtain cs where "wss_clients h = Some cs" and "c \<in> set cs"
    by (auto simp: attached_def split: option.splits)
  with assms show ?thesis
    by (simp add: heartbeat_def fold_heartbeat_attached_visited)
qed

lemma heartbeat_stale:
  assumes "stale c u h \<or> removed c u h"
  shows "removed c u (heartbeat h)"
proof (cases "removed c u h")
  case True
  then show ?thesis
    by (auto simp: heartbeat_def fold_heartbeat_removed split: option.splits)
next
  case False
  with assms have st: "stale c u h" by simp
  then obtain cs where "wss_clients h = Some cs" and "c \<in> set cs"
    by (auto simp: stale_def attached_def split: option.splits)
  with st show ?thesis
    by (simp add: heartbeat_def fold_heartbeat_stale_visited)
qed

lemma on_pong_removed: "removed c u h \<Longrightarrow> removed c u (on_pong c' h)"
  by (auto simp: on_pong_def removed_def split: option.splits)

lemma on_pong_stale_other: "stale c u h \<Longrightarrow> c' \<noteq> c \<Longrightarrow> stale c u (on_pong c' h)"
  by (auto simp: on_pong_def stale_def attached_def split: option.splits)

lemma on_connection_frame:
  assumes "on_connection c' p now (h, st) = (out, h1, st1)" and "c' \<noteq> c"
  shows "sockets h1 c = sockets h c"
    and "wss_clients h1 = map_option (\<lambda>cs. cs @ [c']) (wss_clients h)"
    and "\<And>l. clients h1 u = Some l \<Longrightarrow> c \<in> set l \<Longrightarrow> \<exists>l0. clients h u = Some l0 \<and> c \<in> set l0"
  using assms
  by (auto simp: on_connection_def Let_def split: option.splits if_splits prod.splits)

lemma on_connection_removed:
  assumes "removed c u h" and "c' \<noteq> c"
  shows "removed c u (fst (snd (on_connection c' p now (h, st))))"
proof -
  obtain out h1 st1 where oc: "on_connection c' p now (h, st) = (out, h1, st1)"
    by (cases "on_connection c' p now (h, st)") auto
  note fr = on_connection_frame(1,2) [OF oc assms(2)]
  note fr3 = on_connection_frame(3) [OF oc assms(2), where u = u]
  show ?thesis
    using assms fr3 by (auto simp: oc removed_def fr split: option.splits)
qed

lemma on_connection_stale:
  assumes "stale c u h" and "c' \<noteq> c"
  shows "stale c u (fst (snd (on_connection c' p now (h, st))))"
proof -
  obtain out h1 st1 where oc: "on_connection c' p now (h, st) = (out, h1, st1)"
    by (cases "on_connection c' p now (h, st)") auto
  note fr = on_connection_frame(1,2) [OF oc assms(2)]
  show ?thesis
    using assms by (auto simp: oc stale_def attached_def fr split: option.splits)
qed

lemma handle_event_removed:
  assumes "removed c u (fst hs)" and "\<not> (arrival e \<and> touches c e)"
  shows "removed c u (fst (handle_event e hs))"
proof (cases hs)
  case (Pair h st)
  with assms show ?thesis
    by (cases e)
      (auto simp: on_pong_removed transport_closed_removed heartbeat_stale on_connection_removed)
qed

lemma handle_event_stale:
  assumes "stale c u (fst hs) \<or> removed c u (fst hs)" and "\<not> touches c e"
  shows "stale c u (fst (handle_event e hs)) \<or> removed c u (fst (handle_event e hs))"
proof (cases hs)
  case (Pair h st)
  show ?thesis
  proof (cases e)
    case (PongFrom c')
    with Pair assms show ?thesis
      by (auto simp: on_pong_removed on_pong_stale_other)
  next
    case (TransportClosed c')
    show ?thesis
    proof (cases "removed c u h")
      case True
      with Pair TransportClosed show ?thesis
        by (simp add: transport_closed_removed)
    next
      case False
      with Pair assms have st: "stale c u h" by simp
      show ?thesis
      proof (cases "c' = c")
        case True
        from st have "attached c u h" by (simp add: stale_def)
        then have "removed c u (transport_closed c h)"
          by (rule transport_closed_attached_self)
        with Pair TransportClosed True show ?thesis by simp
      next
        case False
        with st have "stale c u (transport_closed c' h)"
          by (simp add: transport_closed_stale_other)
        with Pair TransportClosed show ?thesis by simp
      qed
    qed
  next
    case HeartbeatTick
    with Pair assms show ?thesis
      using heartbeat_stale [of c u h] by auto
  next
    case (NewConnection c' p now)
    with Pair assms show ?thesis
      by (auto simp: on_connection_removed on_connection_stale)
  qed
qed

lemma run_removed:
  assumes "removed c u (fst hs)" and "\<forall>e \<in> set es. \<not> (arrival e \<and> touches c e)"
  shows "removed c u (fst (run es hs))"
  using assms unfolding run_def
  by (induction es arbitrary: hs) (simp_all add: handle_event_removed)

lemma run_stale:
  assumes "stale c u (fst hs) \<or> removed c u (fst hs)" and "\<forall>e \<in> set es. \<not> touches c e"
  shows "stale c u (fst (run es hs)) \<or> removed c u (fst (run es hs))"
  using assms unfolding run_def
proof (induction es arbitrary: hs)
  case Nil
  then show ?case by simp
next
  case (Cons e es)
  have "stale c u (fst (handle_event e hs)) \<or> removed c u (fst (handle_event e hs))"
    using Cons.prems by (intro handle_event_stale) simp_all
  then show ?case
    using Cons.IH [of "handle_event e hs"] Cons.prems(2) by simp
qed

lemma run_append: "run (es @ es') hs = run es' (run es hs)"
  by (simp add: run_def)

lemma run_Cons: "run (e # es) hs = run es (handle_event e hs)"
  by (simp add: run_def)

lemma removed_no_delivery:
  assumes "removed c u h"
  shows "c \<notin> fst ` set (broadcastToUser u payload h)"
  using assms by (auto simp: removed_def broadcastToUser_def split: option.splits)

lemma close_listener_sole: "sole c u h \<Longrightarrow> sole c u (close_listener c' h)"
  by (auto simp: sole_def close_listener_def split: option.splits if_splits)

lemma transport_closed_sole: "sole c u h \<Longrightarrow> sole c u (transport_closed c' h)"
proof -
  assume s: "sole c u h"
  show ?thesis
  proof (cases "sockets h c'")
    case None
    with s show ?thesis by (simp add: transport_closed_def)
  next
    case (Some ws)
    let ?h1 = "h\<lparr>sockets := (sockets h)(c' \<mapsto> ws\<lparr>ws_readyState := CLOSED\<rparr>),
                  wss_clients := map_option (removeAll c') (wss_clients h)\<rparr>"
    from s have "sole c u ?h1" by (simp add: sole_def)
    then have "sole c u (close_listener c' ?h1)" by (rule close_listener_sole)
    with Some \<open>sole c u ?h1\<close> show ?thesis
      by (simp add: transport_closed_def Let_def)
  qed
qed

lemma heartbeat_client_sole: "sole c u h \<Longrightarrow> sole c u (heartbeat_client c' h)"
  by (auto simp: heartbeat_client_def terminate_def transport_closed_sole split: option.splits)
    (simp add: sole_def)

lemma heartbeat_sole: "sole c u h \<Longrightarrow> sole c u (heartbeat h)"
proof -
  have "\<And>h. sole c u h \<Longrightarrow> sole c u (fold heartbeat_client cs h)" for cs
    by (induction cs) (simp_all add: heartbeat_client_sole)
  then show "sole c u h \<Longrightarrow> sole c u (heartbeat h)"
    by (simp add: heartbeat_def split: option.splits)
qed

lemma on_pong_sole: "sole c u h \<Longrightarrow> sole c u (on_pong c' h)"
  by (auto simp: on_pong_def sole_def split: option.splits)

lemma handle_event_sole:
  assumes "sole c u (fst hs)" and "\<not> arrival e"
  shows "sole c u (fst (handle_event e hs))"
  using assms
  by (cases hs; cases e) (simp_all add: on_pong_sole transport_closed_sole heartbeat_sole)

lemma run_sole:
  assumes "sole c u (fst hs)" and "\<forall>e \<in> set es. \<not> arrival e"
  shows "sole c u (fst (run es hs))"
  using assms unfolding run_def
  by (induction es arbitrary: hs) (simp_all add: handle_event_sole)

lemma removed_sole_empty:
  assumes "removed c u h" and "sole c u h"
  shows "clients h u = None \<and> broadcastToUser u payload h = []"
  using assms by (auto simp: removed_def sole_def broadcastToUser_def split: option.splits)

lemma close_listener_keeps_other:
  assumes "clients h u = Some l" and "c2 \<in> set l" and "c' \<noteq> c2"
  shows "\<exists>l'. clients (close_listener c' h) u = Some l' \<and> c2 \<in> set l'"
proof (cases "sockets h c'")
  case None
  with assms show ?thesis by (simp add: close_listener_def)
next
  case (Some ws)
  show ?thesis
  proof (cases "ws_userId ws")
    case None
    with Some assms show ?thesis by (simp add: close_listener_def)
  next
    case (Some u')
    show ?thesis
    proof (cases "clients h u'")
      case None
      with \<open>sockets h c' = Some ws\<close> Some assms show ?thesis
        by (simp add: close_listener_def)
    next
      case (Some l0)
      show ?thesis
      proof (cases "u' = u")
        case True
        with Some assms have l0: "l0 = l" by simp
        from assms have "c2 \<in> set (removeAll c' l)" by simp
        then have ne: "removeAll c' l \<noteq> []" by (cases "removeAll c' l") simp_all
        show ?thesis
          using \<open>sockets h c' = Some ws\<close> \<open>ws_userId ws = Some u'\<close> Some True l0 ne assms
          by (simp add: close_listener_def)
      next
        case False
        with \<open>sockets h c' = Some ws\<close> \<open>ws_userId ws = Some u'\<close> Some assms show ?thesis
          by (simp add: close_listener_def)
      qed
    qed
  qed
qed

lemma transport_closed_keeps_other:
  assumes "open_registered c2 u h" and "c' \<noteq> c2"
  shows "open_registered c2 u (transport_closed c' h) \<and> sockets (transport_closed c' h) c2 = sockets h c2"
proof (cases "sockets h c'")
  case None
  with assms show ?thesis by (simp add: transport_closed_def)
next
  case (Some ws)
  let ?h1 = "h\<lparr>sockets := (sockets h)(c' \<mapsto> ws\<lparr>ws_readyState := CLOSED\<rparr>),
                wss_clients := map_option (removeAll c') (wss_clients h)\<rparr>"
  from assms obtain l where l: "clients h u = Some l" "c2 \<in> set l"
    by (auto simp: open_registered_def registered_def split: option.splits)
  have base: "open_registered c2 u ?h1"
    using assms by (auto simp: open_registered_def registered_def attached_def split: option.splits)
  have s1: "sockets ?h1 c2 = sockets h c2"
    using assms(2) by simp
  show ?thesis
  proof (cases "ws_listening ws")
    case False
    with Some base s1 show ?thesis
      by (simp add: transport_closed_def Let_def)
  next
    case True
    have tc: "transport_closed c' h = close_listener c' ?h1"
      using Some True by (simp add: transport_closed_def Let_def)
    have "clients ?h1 u = Some l" using l by simp
    from close_listener_keeps_other [OF this l(2) assms(2)]
    obtain l' where l': "clients (close_listener c' ?h1) u = Some l'" "c2 \<in> set l'"
      by blast
    show ?thesis
      unfolding tc using base l' s1
      by (auto simp: open_registered_def registered_def attached_def split: option.splits)
  qed
qed

lemma transport_closed_distinct:
  "clients_distinct h \<Longrightarrow> clients_distinct (transport_closed c' h)"
  by (auto simp: clients_distinct_def transport_closed_wss distinct_removeAll split: option.splits)

lemma heartbeat_client_keeps_other:
  assumes "open_registered c2 u h" and "c' \<noteq> c2"
  shows "open_registered c2 u (heartbeat_client c' h)
       \<and> sockets (heartbeat_client c' h) c2 = sockets h c2"
proof (cases "sockets h c'")
  case None
  with assms show ?thesis by (simp add: heartbeat_client_def)
next
  case (Some client)
  show ?thesis
  proof (cases "ws_isAlive client = Some False")
    case True
    with Some assms show ?thesis
      by (simp add: heartbeat_client_def terminate_def transport_closed_keeps_other)
  next
    case False
    with Some assms show ?thesis
      by (auto simp: heartbeat_client_def open_registered_def registered_def attached_def
          split: option.splits)
  qed
qed

lemma heartbeat_client_keeps_self:
  assumes "open_registered c2 u h" and "map_option ws_isAlive (sockets h c2) \<noteq> Some (Some False)"
  shows "open_registered c2 u (heartbeat_client c2 h)"
  using assms
  by (auto simp: heartbeat_client_def open_registered_def registered_def attached_def
      split: option.splits)

lemma heartbeat_client_wss:
  "wss_clients (heartbeat_client c' h) = wss_clients h
   \<or> wss_clients (heartbeat_client c' h) = map_option (removeAll c') (wss_clients h)"
  by (auto simp: heartbeat_client_def terminate_def transport_closed_wss split: option.splits)

lemma heartbeat_client_distinct:
  "clients_distinct h \<Longrightarrow> clients_distinct (heartbeat_client c' h)"
  using heartbeat_client_wss [of c' h]
  by (auto simp: clients_distinct_def distinct_removeAll split: option.splits)

lemma fold_heartbeat_distinct:
  "clients_distinct h \<Longrightarrow> clients_distinct (fold heartbeat_client cs h)"
  by (induction cs arbitrary: h) (simp_all add: heartbeat_client_distinct)

lemma fold_heartbeat_keeps_unvisited:
  "open_registered c2 u h \<Longrightarrow> c2 \<notin> set cs \<Longrightarrow> open_registered c2 u (fold heartbeat_client cs h)"
proof (induction cs arbitrary: h)
  case Nil
  then show ?case by simp
next
  case (Cons a cs)
  then have "open_registered c2 u (heartbeat_client a h)"
    using heartbeat_client_keeps_other [of c2 u h a] by auto
  with Cons show ?case by simp
qed

lemma fold_heartbeat_keeps:
  "open_registered c2 u h \<Longrightarrow> map_option ws_isAlive (sockets h c2) \<noteq> Some (Some False) \<Longrightarrow>
     distinct cs \<Longrightarrow> open_registered c2 u (fold heartbeat_client cs h)"
proof (induction cs arbitrary: h)
  case Nil
  then show ?case by simp
next
  case (Cons a cs)
  show ?case
  proof (cases "a = c2")
    case True
    with Cons.prems have "open_registered c2 u (heartbeat_client a h)" and "c2 \<notin> set cs"
      by (simp_all add: heartbeat_client_keeps_self)
    then show ?thesis
      by (simp add: fold_heartbeat_keeps_unvisited)
  next
    case False
    with Cons.prems have "open_registered c2 u (heartbeat_client a h)"
      and "sockets (heartbeat_client a h) c2 = sockets h c2"
      using heartbeat_client_keeps_other [of c2 u h a] by auto
    with Cons show ?thesis by simp
  qed
qed

lemma heartbeat_keeps:
  assumes "open_registered c2 u h" and "map_option ws_isAlive (sockets h c2) \<noteq> Some (Some False)"
    and "clients_distinct h"
  shows "open_registered c2 u (heartbeat h) \<and> clients_distinct (heartbeat h)"
proof (cases "wss_clients h")
  case None
  with assms show ?thesis by (simp add: heartbeat_def)
next
  case (Some cs)
  with assms(3) have "distinct cs" by (simp add: clients_distinct_def)
  with assms Some show ?thesis
    by (simp add: heartbeat_def fold_heartbeat_keeps fold_heartbeat_distinct)
qed

lemma on_pong_keeps:
  "open_registered c2 u h \<Longrightarrow> open_registered c2 u (on_pong c' h)"
  by (auto simp: on_pong_def open_registered_def registered_def attached_def split: option.splits)

lemma on_pong_distinct: "clients_distinct h \<Longrightarrow> clients_distinct (on_pong c' h)"
  by (auto simp: on_pong_def clients_distinct_def split: option.splits)

lemma on_pong_alive_self:
  "open_registered c2 u h \<Longrightarrow> map_option ws_isAlive (sockets (on_pong c2 h) c2) = Some (Some True)"
  by (auto simp: on_pong_def open_registered_def registered_def attached_def split: option.splits)

lemma on_pong_alive_other:
  "map_option ws_isAlive (sockets h c2) = Some (Some True) \<Longrightarrow>
     map_option ws_isAlive (sockets (on_pong c' h) c2) = Some (Some True)"
  by (auto simp: on_pong_def split: option.splits)

lemma handle_event_keeps:
  assumes "open_registered c2 u (fst hs)" and "clients_distinct (fst hs)"
    and "\<not> arrival e" and "\<not> tick e" and "\<not> closes c2 e"
  shows "open_registered c2 u (fst (handle_event e hs)) \<and> clients_distinct (fst (handle_event e hs))
       \<and> (map_option ws_isAlive (sockets (fst hs) c2) = Some (Some True) \<or> e = PongFrom c2 \<longrightarrow>
            map_option ws_isAlive (sockets (fst (handle_event e hs)) c2) = Some (Some True))"
proof (cases hs)
  case (Pair h st)
  show ?thesis
  proof (cases e)
    case (PongFrom c')
    from Pair assms(1,2) have live: "open_registered c2 u h" and dist: "clients_distinct h"
      by simp_all
    have p: "open_registered c2 u (on_pong c' h)"
      using live by (rule on_pong_keeps)
    have d: "clients_distinct (on_pong c' h)"
      using dist by (rule on_pong_distinct)
    have a: "map_option ws_isAlive (sockets (on_pong c' h) c2) = Some (Some True)"
      if "map_option ws_isAlive (sockets h c2) = Some (Some True) \<or> c' = c2"
      using that on_pong_alive_self [OF live] on_pong_alive_other [of h c2 c'] by blast
    show ?thesis
      using p d a by (simp add: Pair PongFrom)
  next
    case (TransportClosed c')
    with assms have ne: "c' \<noteq> c2" by simp
    from Pair assms(1) have "open_registered c2 u h" by simp
    from transport_closed_keeps_other [OF this ne] Pair TransportClosed assms(2)
    show ?thesis
      by (simp add: transport_closed_distinct)
  next
    case HeartbeatTick
    with assms show ?thesis by simp
  next
    case (NewConnection c' p now)
    with assms show ?thesis by simp
  qed
qed

lemma run_keeps:
  assumes "open_registered c2 u (fst hs)" and "clients_distinct (fst hs)"
    and "\<forall>e \<in> set es. \<not> arrival e \<and> \<not> tick e \<and> \<not> closes c2 e"
  shows "open_registered c2 u (fst (run es hs)) \<and> clients_distinct (fst (run es hs))
       \<and> (map_option ws_isAlive (sockets (fst hs) c2) = Some (Some True) \<or> PongFrom c2 \<in> set es \<longrightarrow>
            map_option ws_isAlive (sockets (fst (run es hs)) c2) = Some (Some True))"
  using assms unfolding run_def
proof (induction es arbitrary: hs)
  case Nil
  then show ?case by simp
next
  case (Cons e es)
  from Cons.prems have q: "\<not> arrival e" "\<not> tick e" "\<not> closes c2 e"
    and rest: "\<forall>e \<in> set es. \<not> arrival e \<and> \<not> tick e \<and> \<not> closes c2 e"
    by simp_all
  note step = handle_event_keeps [OF Cons.prems(1) Cons.prems(2) q]
  from step have p: "open_registered c2 u (fst (handle_event e hs))"
    and d: "clients_distinct (fst (handle_event e hs))"
    by simp_all
  note ih = Cons.IH [OF p d rest]
  show ?case
    using step ih by auto
qed

lemma open_registered_delivery:
  assumes "open_registered c2 u h"
  shows "c2 \<in> fst ` set (broadcastToUser u payload h)"
proof -
  from assms obtain ws l where "sockets h c2 = Some ws" "ws_readyState ws = OPEN"
    "clients h u = Some l" "c2 \<in> set l"
    by (auto simp: open_registered_def registered_def attached_def split: option.splits)
  then show ?thesis
    by (force simp: broadcastToUser_def image_iff)
qed

lemma other_connection_served:
  assumes live: "open_registered c2 u h"
    and answered: "map_option ws_isAlive (sockets h c2) \<noteq> Some (Some False)"
    and dist: "clients_distinct h"
    and pong: "PongFrom c2 \<in> set between"
    and calm: "\<forall>e \<in> set (between @ later). \<not> arrival e \<and> \<not> tick e \<and> \<not> closes c2 e"
  shows "c2 \<in> fst ` set (broadcastToUser u payload
                 (fst (run (HeartbeatTick # between @ HeartbeatTick # later) (h, st))))"
proof -
  let ?s1 = "handle_event HeartbeatTick (h, st)"
  let ?s2 = "run between ?s1"
  let ?s3 = "handle_event HeartbeatTick ?s2"
  have split_run: "run (HeartbeatTick # between @ HeartbeatTick # later) (h, st) = run later ?s3"
    by (simp add: run_Cons run_append)
  from heartbeat_keeps [OF live answered dist]
  have p1: "open_registered c2 u (fst ?s1)" and d1: "clients_distinct (fst ?s1)"
    by simp_all
  from calm have cb: "\<forall>e \<in> set between. \<not> arrival e \<and> \<not> tick e \<and> \<not> closes c2 e"
    and cl: "\<forall>e \<in> set later. \<not> arrival e \<and> \<not> tick e \<and> \<not> closes c2 e"
    by simp_all
  from run_keeps [OF p1 d1 cb] pong
  have p2: "open_registered c2 u (fst ?s2)" and d2: "clients_distinct (fst ?s2)"
    and a2: "map_option ws_isAlive (sockets (fst ?s2) c2) = Some (Some True)"
    by simp_all
  from a2 have n2: "map_option ws_isAlive (sockets (fst ?s2) c2) \<noteq> Some (Some False)"
    by auto
  from heartbeat_keeps [OF p2 n2 d2]
  have p3: "open_registered c2 u (fst ?s3)" and d3: "clients_distinct (fst ?s3)"
    by (cases ?s2; simp)+
  from run_keeps [OF p3 d3 cl]
  have "open_registered c2 u (fst (run later ?s3))"
    by simp
  then show ?thesis
    unfolding split_run by (rule open_registered_delivery)
qed

text \<open>
  Claim C8, amended.  Take a registered connection, a round of the heartbeat, any events
  in which the connection sends no pong, a second round, and any later events, further
  rounds among them (no new connection reuses the socket).  Then, by the third round,
  the connection is closed and is in neither \<^verbatim>\<open>wss.clients\<close> nor its user's set of the
  registry, and \<^verbatim>\<open>broadcastToUser\<close> for its user sends nothing to it.  If it was the only
  connection in its user's set and no connection arrived, the user's entry is gone from
  the registry and the broadcast sends nothing at all.  Another open, registered
  connection of the same user that was not overdue at the first round and answers with
  a pong between the two rounds still gets the broadcast, when the other events hold no
  close of its transport, no further round and no arrival.
\<close>

theorem C8_unanswered_probe_removed:
  assumes reg: "registered cid userId h"
    and quiet: "\<forall>e \<in> set between. \<not> touches cid e"
    and fresh: "\<forall>e \<in> set later. \<not> (arrival e \<and> touches cid e)"
  shows "removed cid userId (fst (run (HeartbeatTick # between @ HeartbeatTick # later) (h, st)))
       \<and> cid \<notin> fst ` set (broadcastToUser userId payload
                   (fst (run (HeartbeatTick # between @ HeartbeatTick # later) (h, st))))
       \<and> (clients h userId = Some [cid] \<and> (\<forall>e \<in> set (between @ later). \<not> arrival e) \<longrightarrow>
            clients (fst (run (HeartbeatTick # between @ HeartbeatTick # later) (h, st))) userId = None
          \<and> broadcastToUser userId payload
               (fst (run (HeartbeatTick # between @ HeartbeatTick # later) (h, st))) = [])
       \<and> (open_registered other userId h
            \<and> map_option ws_isAlive (sockets h other) \<noteq> Some (Some False)
            \<and> clients_distinct h
            \<and> PongFrom other \<in> set between
            \<and> (\<forall>e \<in> set (between @ later). \<not> arrival e \<and> \<not> tick e \<and> \<not> closes other e) \<longrightarrow>
            other \<in> fst ` set (broadcastToUser userId payload
                      (fst (run (HeartbeatTick # between @ HeartbeatTick # later) (h, st)))))"
proof -
  let ?es = "HeartbeatTick # between @ HeartbeatTick # later"
  let ?final = "fst (run ?es (h, st))"
  let ?s1 = "handle_event HeartbeatTick (h, st)"
  let ?s2 = "run between ?s1"
  let ?s3 = "handle_event HeartbeatTick ?s2"
  have split_run: "run ?es (h, st) = run later ?s3"
    by (simp add: run_Cons run_append)
  from reg have att: "attached cid userId h"
    by (simp add: registered_def)
  then have "stale cid userId (fst ?s1) \<or> removed cid userId (fst ?s1)"
    by (simp add: heartbeat_attached)
  then have "stale cid userId (fst ?s2) \<or> removed cid userId (fst ?s2)"
    using quiet by (rule run_stale)
  then have "removed cid userId (heartbeat (fst ?s2))"
    by (rule heartbeat_stale)
  then have "removed cid userId (fst ?s3)"
    by (cases ?s2) simp
  then have rem: "removed cid userId ?final"
    unfolding split_run using fresh by (rule run_removed)
  have nodel: "cid \<notin> fst ` set (broadcastToUser userId payload ?final)"
    using rem by (rule removed_no_delivery)
  have last: "clients ?final userId = None \<and> broadcastToUser userId payload ?final = []"
    if only: "clients h userId = Some [cid]" and noarr: "\<forall>e \<in> set (between @ later). \<not> arrival e"
  proof -
    have "\<forall>e \<in> set ?es. \<not> arrival e"
      using noarr by simp
    moreover have "sole cid userId (fst (h, st))"
      using only by (simp add: sole_def)
    ultimately have "sole cid userId ?final"
      by (intro run_sole)
    with rem show ?thesis
      by (rule removed_sole_empty)
  qed
  have served: "other \<in> fst ` set (broadcastToUser userId payload ?final)"
    if "open_registered other userId h"
      and "map_option ws_isAlive (sockets h other) \<noteq> Some (Some False)"
      and "clients_distinct h"
      and "PongFrom other \<in> set between"
      and "\<forall>e \<in> set (between @ later). \<not> arrival e \<and> \<not> tick e \<and> \<not> closes other e"
    using that by (rule other_connection_served)
  show ?thesis
    using rem nodel last served by blast
qed

theorem C8_unanswered_probe_removed_witness:
  "(case on_connection 3 (Some ''s2'') 1000 (example_hub, example_first_login_server) of
      (out, h, st) \<Rightarrow>
         registered 3 ''u2'' h
         \<and> clients h ''u2'' = Some [3]
         \<and> list_all (\<lambda>e. \<not> touches 3 e) [PongFrom 4]
         \<and> list_all (\<lambda>e. \<not> arrival e) ([PongFrom 4] @ [HeartbeatTick])
         \<and> removed 3 ''u2'' (fst (run (HeartbeatTick # [PongFrom 4] @ HeartbeatTick # [HeartbeatTick]) (h, st)))
         \<and> clients (fst (run (HeartbeatTick # [PongFrom 4] @ HeartbeatTick # [HeartbeatTick]) (h, st))) ''u2''
             = None
         \<and> broadcastToUser ''u2'' ''notice''
              (fst (run (HeartbeatTick # [PongFrom 4] @ HeartbeatTick # [HeartbeatTick]) (h, st))) = [])
   \<and> (case run [NewConnection 3 (Some ''s2'') 1000, NewConnection 4 (Some ''s2'') 2000]
              (example_hub, example_first_login_server) of
        (h, st) \<Rightarrow>
           registered 3 ''u2'' h
           \<and> open_registered 4 ''u2'' h
           \<and> map_option ws_isAlive (sockets h 4) = Some (Some True)
           \<and> clients_distinct h
           \<and> list_all (\<lambda>e. \<not> touches 3 e \<and> \<not> arrival e \<and> \<not> tick e \<and> \<not> closes 4 e) [PongFrom 4]
           \<and> removed 3 ''u2'' (fst (run (HeartbeatTick # [PongFrom 4] @ HeartbeatTick # []) (h, st)))
           \<and> 4 \<in> fst ` set (broadcastToUser ''u2'' ''notice''
                   (fst (run (HeartbeatTick # [PongFrom 4] @ HeartbeatTick # []) (h, st)))))"
proof -
  obtain out h st where oc: "on_connection 3 (Some ''s2'') 1000 (example_hub, example_first_login_server)
      = (out, h, st)"
    by (cases "on_connection 3 (Some ''s2'') 1000 (example_hub, example_first_login_server)") auto
  have "case on_connection 3 (Some ''s2'') 1000 (example_hub, example_first_login_server) of
     (out, h, st) \<Rightarrow> registered 3 ''u2'' h \<and> clients h ''u2'' = Some [3]"
    by code_simp
  then have reg: "registered 3 ''u2'' h" and only: "clients h ''u2'' = Some [3]"
    by (simp_all add: oc)
  have quiet: "\<forall>e \<in> set [PongFrom 4]. \<not> touches 3 e"
    by simp
  have fresh: "\<forall>e \<in> set [HeartbeatTick]. \<not> (arrival e \<and> touches 3 e)"
    by simp
  have noarr: "\<forall>e \<in> set ([PongFrom 4] @ [HeartbeatTick]). \<not> arrival e"
    by simp
  from C8_unanswered_probe_removed [OF reg quiet fresh, where payload = "''notice''" and st = st] only noarr
  have one: "removed 3 ''u2'' (fst (run (HeartbeatTick # [PongFrom 4] @ HeartbeatTick # [HeartbeatTick]) (h, st)))
         \<and> clients (fst (run (HeartbeatTick # [PongFrom 4] @ HeartbeatTick # [HeartbeatTick]) (h, st))) ''u2''
             = None
         \<and> broadcastToUser ''u2'' ''notice''
              (fst (run (HeartbeatTick # [PongFrom 4] @ HeartbeatTick # [HeartbeatTick]) (h, st))) = []"
    by blast
  obtain h2 st2 where two: "run [NewConnection 3 (Some ''s2'') 1000, NewConnection 4 (Some ''s2'') 2000]
              (example_hub, example_first_login_server) = (h2, st2)"
    by (cases "run [NewConnection 3 (Some ''s2'') 1000, NewConnection 4 (Some ''s2'') 2000]
              (example_hub, example_first_login_server)") auto
  have "case run [NewConnection 3 (Some ''s2'') 1000, NewConnection 4 (Some ''s2'') 2000]
              (example_hub, example_first_login_server) of
     (h, st) \<Rightarrow> registered 3 ''u2'' h \<and> open_registered 4 ''u2'' h
        \<and> map_option ws_isAlive (sockets h 4) = Some (Some True) \<and> clients_distinct h"
    by code_simp
  then have reg2: "registered 3 ''u2'' h2" and open4: "open_registered 4 ''u2'' h2"
    and alive4: "map_option ws_isAlive (sockets h2 4) = Some (Some True)"
    and dist2: "clients_distinct h2"
    by (simp_all add: two)
  from alive4 have fresh4: "map_option ws_isAlive (sockets h2 4) \<noteq> Some (Some False)"
    by auto
  have none: "\<forall>e \<in> set []. \<not> (arrival e \<and> touches 3 e)"
    by simp
  have pong4: "PongFrom 4 \<in> set [PongFrom 4]"
    by simp
  have calm: "\<forall>e \<in> set ([PongFrom 4] @ []). \<not> arrival e \<and> \<not> tick e \<and> \<not> closes 4 e"
    by simp
  from C8_unanswered_probe_removed [OF reg2 quiet none, where payload = "''notice''" and st = st2
      and other = 4] open4 fresh4 dist2 pong4 calm
  have both: "removed 3 ''u2'' (fst (run (HeartbeatTick # [PongFrom 4] @ HeartbeatTick # []) (h2, st2)))
      \<and> 4 \<in> fst ` set (broadcastToUser ''u2'' ''notice''
                   (fst (run (HeartbeatTick # [PongFrom 4] @ HeartbeatTick # []) (h2, st2))))"
    by blast
  have first: "case on_connection 3 (Some ''s2'') 1000 (example_hub, example_first_login_server) of
      (out, h, st) \<Rightarrow>
         registered 3 ''u2'' h
         \<and> clients h ''u2'' = Some [3]
         \<and> list_all (\<lambda>e. \<not> touches 3 e) [PongFrom 4]
         \<and> list_all (\<lambda>e. \<not> arrival e) ([PongFrom 4] @ [HeartbeatTick])
         \<and> removed 3 ''u2'' (fst (run (HeartbeatTick # [PongFrom 4] @ HeartbeatTick # [HeartbeatTick]) (h, st)))
         \<and> clients (fst (run (HeartbeatTick # [PongFrom 4] @ HeartbeatTick # [HeartbeatTick]) (h, st))) ''u2''
             = None
         \<and> broadcastToUser ''u2'' ''notice''
              (fst (run (HeartbeatTick # [PongFrom 4] @ HeartbeatTick # [HeartbeatTick]) (h, st))) = []"
    using one only by (simp add: oc reg)
  have second: "case run [NewConnection 3 (Some ''s2'') 1000, NewConnection 4 (Some ''s2'') 2000]
              (example_hub, example_first_login_server) of
        (h, st) \<Rightarrow>
           registered 3 ''u2'' h
           \<and> open_registered 4 ''u2'' h
           \<and> map_option ws_isAlive (sockets h 4) = Some (Some True)
           \<and> clients_distinct h
           \<and> list_all (\<lambda>e. \<not> touches 3 e \<and> \<not> arrival e \<and> \<not> tick e \<and> \<not> closes 4 e) [PongFrom 4]
           \<and> removed 3 ''u2'' (fst (run (HeartbeatTick # [PongFrom 4] @ HeartbeatTick # []) (h, st)))
           \<and> 4 \<in> fst ` set (broadcastToUser ''u2'' ''notice''
                   (fst (run (HeartbeatTick # [PongFrom 4] @ HeartbeatTick # []) (h, st))))"
    unfolding two using both reg2 open4 alive4 dist2 by simp
  from first second show ?thesis
    by (rule conjI)
qed

text \<open>
  The claim as stated, that the broadcast reaches no connection of the user, fails when
  the user has a second connection that answers its probes: the user u2 connects twice
  (sockets 3 and 4), socket 3 answers nothing, socket 4 answers the first round, and
  after the second round socket 3 is removed and a broadcast to u2 is delivered to
  socket 4.
\<close>

theorem C8_two_tabs_counterexample:
  "registered 3 ''u2''
     (fst (run [NewConnection 3 (Some ''s2'') 1000, NewConnection 4 (Some ''s2'') 2000]
            (example_hub, example_first_login_server)))
   \<and> \<not> touches 3 (PongFrom 4)
   \<and> removed 3 ''u2''
        (fst (run [NewConnection 3 (Some ''s2'') 1000, NewConnection 4 (Some ''s2'') 2000,
                   HeartbeatTick, PongFrom 4, HeartbeatTick]
               (example_hub, example_first_login_server)))
   \<and> broadcastToUser ''u2'' ''notice''
        (fst (run [NewConnection 3 (Some ''s2'') 1000, NewConnection 4 (Some ''s2'') 2000,
                   HeartbeatTick, PongFrom 4, HeartbeatTick]
               (example_hub, example_first_login_server)))
      = [(4, Data ''notice'')]"
  by code_simp

section \<open>Client reconnection: properties\<close>

text \<open>
  Claim C7.  The delays of eleven unexpected closes in a row on a new client: the first
  reconnect is scheduled after 1500 ms, each later delay is 1.5 times the one before up
  to the cap of 30000 ms, and the eleventh close schedules nothing.
\<close>

theorem C7_reconnect_delays:
  "reconnect_delays 11 new_WebSocketClient =
     [Some 1500, Some 2250, Some 3375, Some (10125 / 2), Some (30375 / 4), Some (91125 / 8),
      Some (273375 / 16), Some (820125 / 32), Some 30000, Some 30000, None]"
  by (simp add: eval_nat_numeral onclose_def scheduleReconnect_def new_WebSocketClient_def Let_def)

lemma onopen_resets:
  "reconnectAttempts (onopen c) = 0 \<and> reconnectDelay (onopen c) = 1000"
  by (simp add: onopen_def)

lemma scheduleReconnect_capped:
  "fst (scheduleReconnect c) = Some d \<Longrightarrow> d \<le> maxReconnectDelay c"
  by (auto simp: scheduleReconnect_def Let_def split: if_splits)

lemma scheduleReconnect_delay:
  assumes "shouldReconnect c" and "reconnectAttempts c < maxReconnectAttempts c"
  shows "fst (scheduleReconnect c) =
           Some (min (reconnectDelay c * (3 / 2) ^ (reconnectAttempts c + 1)) (maxReconnectDelay c))
       \<and> reconnectAttempts (snd (scheduleReconnect c)) = reconnectAttempts c + 1
       \<and> reconnectDelay (snd (scheduleReconnect c)) = reconnectDelay c"
  using assms by (simp add: scheduleReconnect_def Let_def)

lemma scheduleReconnect_abandoned:
  "maxReconnectAttempts c \<le> reconnectAttempts c \<Longrightarrow> scheduleReconnect c = (None, c)"
  by (simp add: scheduleReconnect_def)

end
